theory Spec2Isabelle
  imports Main "HOL-Library.Sublist"
begin

section \<open>Calls on collaborating services\<close>

text \<open>
  The class \<open>Server\<close> owns no algorithm of its own: each of its methods is a fixed
  sequence of calls on services it was constructed with. The services are not part of
  the sources, so their behaviour is a parameter of the model. A call either returns
  (an awaited promise fulfils) or fails (the call throws, or the awaited promise
  rejects); a failure inside an \<open>async\<close> function rejects the promise it returned.
  A run is an execution in which every call made has settled: an awaited promise that
  never settles leaves the function suspended, and is not represented.
\<close>

datatype error = Failure string | TypeError string

type_synonym ('s, 'a) action = "'s \<Rightarrow> (error + 'a) \<times> 's"

text \<open>The operation of a service: it acts on the world outside the \<open>Server\<close>.\<close>

type_synonym ('w, 'a) external = "('w, 'a) action"

definition resolve :: "'a \<Rightarrow> ('s, 'a) action" where
  "resolve x s = (Inr x, s)"

text \<open>
  \<open>const x = await m; rest\<close> (or \<open>const x = m; rest\<close> for a synchronous call): the
  rest runs only when \<open>m\<close> has returned, and a failure of \<open>m\<close> is the failure of the
  whole.
\<close>

definition and_then :: "('s, 'a) action \<Rightarrow> ('a \<Rightarrow> ('s, 'b) action) \<Rightarrow> ('s, 'b) action" where
  "and_then m f s = (case m s of (Inl e, s') \<Rightarrow> (Inl e, s') | (Inr x, s') \<Rightarrow> f x s')"

datatype service =
  Config | Context | Http | Router | Capabilities | Elasticsearch | UiSettings
  | SavedObjects | Plugins | Legacy

datatype operation =
  Discover | DiscoverPlugins | EnsureValidConfiguration | Setup | Start | Stop
  | CreateRouter | Get | RegisterRouteHandlerContext

datatype outcome = Resolved | Failed error

datatype js_symbol = Symbol string

text \<open>
  A JavaScript \<open>Map\<close> keeps its entries in insertion order, one entry for a key:
  \<open>set\<close> on a key that is present replaces the value where the entry stands, and
  on a new key appends the entry. \<open>new Map(entries)\<close> sets the entries one after
  another on an empty map.
\<close>

type_synonym ('k, 'v) js_map = "('k \<times> 'v) list"

fun Map_set :: "('k, 'v) js_map \<Rightarrow> 'k \<Rightarrow> 'v \<Rightarrow> ('k, 'v) js_map" where
  "Map_set [] k v = [(k, v)]"
| "Map_set ((k', v') # m) k v = (if k' = k then (k, v) # m else (k', v') # Map_set m k v)"

definition Map_new :: "('k \<times> 'v) list \<Rightarrow> ('k, 'v) js_map" where
  "Map_new entries = foldl (\<lambda>m (k, v). Map_set m k v) [] entries"

definition Map_keys :: "('k, 'v) js_map \<Rightarrow> 'k list" where
  "Map_keys m = map fst m"

text \<open>
  Modelled from the spec: a stream of clients (an observable of a library outside the
  sources), as far as \<open>pipe(take(1)).toPromise()\<close> reads it: the values it emits,
  in order, and then how it ends (with an error, or by completing).
\<close>

datatype 'a observable = Observable (emitted: "'a list") (failure: "error option")

subsection \<open>Contracts\<close>

text \<open>
  What a service returns from \<open>setup\<close> or \<open>start\<close> is an object of a type declared
  elsewhere; \<open>'c\<close> is the type of such objects. The contracts whose members the
  \<open>Server\<close> reads are records of those members.
\<close>

record 'c elasticsearch_contract =
  adminClient_obs :: "'c observable"
  dataClient_obs :: "'c observable"

record ('k, 'c) plugins_contract =
  contracts :: "('k, 'c) js_map"

record 'c core_setup =
  capabilities :: 'c
  "context" :: 'c
  elasticsearch :: "'c elasticsearch_contract"
  http :: 'c
  uiSettings :: 'c
  savedObjects :: 'c

text \<open>\<open>{ ...coreSetup, plugins: pluginsSetup }\<close>\<close>

record ('k, 'c) legacy_core_setup = "'c core_setup" +
  plugins :: "('k, 'c) plugins_contract"

record ('k, 'c) core_start =
  capabilities :: 'c
  savedObjects :: 'c
  plugins :: "('k, 'c) plugins_contract"

record route_config =
  path :: string
  validate :: bool

subsection \<open>Closures handed to the http service\<close>

text \<open>
  The \<open>Server\<close> hands two functions of its own to the http service: the handler of
  its default route, and the provider of the \<open>core\<close> request context, which closes
  over the \<open>coreSetup\<close> it was registered with. A closure is represented by its
  code and the variables it captured; \<open>defaultRouteHandler\<close> and
  \<open>coreContextProvider\<close> below run them.
\<close>

datatype route_handler = DefaultRouteHandler

datatype 'c context_provider = CoreContextProvider "'c core_setup"

subsection \<open>The record of calls\<close>

datatype ('k, 'c) args =
    NoArgs
  | EmptyObject
  | ValidationArgs 'c
  | ContextSetupDeps "('k, 'k list) js_map"
  | HttpSetupDeps 'c
  | HttpDep 'c
  | SavedObjectsSetupDeps "'c elasticsearch_contract" 'c
  | PluginsSetupDeps "'c core_setup"
  | LegacySetupDeps "('k, 'c) legacy_core_setup" 'c
  | PluginsStartDeps 'c 'c
  | LegacyStartDeps "('k, 'c) core_start" 'c
  | RouterPath 'c string
  | RouteArgs 'c route_config route_handler
  | ContextProviderArgs 'c js_symbol string "'c context_provider"

record ('k, 'c) call =
  target :: service
  operation :: operation
  passed :: "('k, 'c) args"
  settled :: outcome

definition label :: "('k, 'c) call \<Rightarrow> service \<times> operation" where
  "label c = (target c, operation c)"

record ('k, 'c, 'w) server_state =
  calls :: "('k, 'c) call list"
  logged :: "string list"
  world :: 'w

definition settle :: "error + 'a \<Rightarrow> outcome" where
  "settle r = (case r of Inl e \<Rightarrow> Failed e | Inr _ \<Rightarrow> Resolved)"

text \<open>
  A call on a service runs the service's operation on the world and enters the call,
  with how it settled, in the record of calls.
\<close>

definition invoke ::
  "service \<Rightarrow> operation \<Rightarrow> ('k, 'c) args \<Rightarrow> ('w, 'a) external \<Rightarrow> (('k, 'c, 'w) server_state, 'a) action" where
  "invoke sv m a op s =
     (case op (world s) of (r, w') \<Rightarrow>
        (r, s\<lparr>calls := calls s @ [\<lparr>target = sv, operation = m, passed = a, settled = settle r\<rparr>],
              world := w'\<rparr>))"

definition log_debug :: "string \<Rightarrow> (('k, 'c, 'w) server_state, unit) action" where
  "log_debug msg s = (Inr (), s\<lparr>logged := logged s @ [msg]\<rparr>)"

subsection \<open>The services\<close>

text \<open>
  One field for each operation the \<open>Server\<close> calls, with the arguments it passes;
  \<open>legacyId\<close> is the identifier of the legacy service and \<open>mapToObject\<close> the
  helper that turns a \<open>Map\<close> into a plain object.
\<close>

record ('k, 'c, 'w) services =
  legacyId :: 'k
  mapToObject :: "('k, 'c) js_map \<Rightarrow> 'c"
  plugins_discover :: "('w, ('k, 'k list) js_map) external"
  legacy_discoverPlugins :: "('w, 'c) external"
  ensureValidConfiguration :: "'c \<Rightarrow> ('w, unit) external"
  context_setup :: "('k, 'k list) js_map \<Rightarrow> ('w, 'c) external"
  http_setup :: "'c \<Rightarrow> ('w, 'c) external"
  createRouter :: "'c \<Rightarrow> string \<Rightarrow> ('w, 'c) external"
  router_get :: "'c \<Rightarrow> route_config \<Rightarrow> route_handler \<Rightarrow> ('w, unit) external"
  capabilities_setup :: "'c \<Rightarrow> ('w, 'c) external"
  elasticsearch_setup :: "'c \<Rightarrow> ('w, 'c elasticsearch_contract) external"
  uiSettings_setup :: "'c \<Rightarrow> ('w, 'c) external"
  savedObjects_setup :: "'c elasticsearch_contract \<Rightarrow> 'c \<Rightarrow> ('w, 'c) external"
  plugins_setup :: "'c core_setup \<Rightarrow> ('w, ('k, 'c) plugins_contract) external"
  legacy_setup :: "('k, 'c) legacy_core_setup \<Rightarrow> 'c \<Rightarrow> ('w, unit) external"
  registerRouteHandlerContext ::
    "'c \<Rightarrow> js_symbol \<Rightarrow> string \<Rightarrow> 'c context_provider \<Rightarrow> ('w, unit) external"
  savedObjects_start :: "('w, 'c) external"
  capabilities_start :: "('w, 'c) external"
  plugins_start :: "'c \<Rightarrow> 'c \<Rightarrow> ('w, ('k, 'c) plugins_contract) external"
  legacy_start :: "('k, 'c) core_start \<Rightarrow> 'c \<Rightarrow> ('w, unit) external"
  http_start :: "('w, unit) external"
  legacy_stop :: "('w, unit) external"
  plugins_stop :: "('w, unit) external"
  savedObjects_stop :: "('w, unit) external"
  elasticsearch_stop :: "('w, unit) external"
  http_stop :: "('w, unit) external"

section \<open>The server\<close>

definition coreId :: js_symbol where
  "coreId = Symbol ''core''"

text \<open>A new \<open>Server\<close>: nothing called, nothing logged; \<open>w\<close> is the world it is built in.\<close>

definition Server_new :: "'w \<Rightarrow> ('k, 'c, 'w) server_state" where
  "Server_new w = \<lparr>calls = [], logged = [], world = w\<rparr>"

definition registerDefaultRoute ::
  "('k, 'c, 'w) services \<Rightarrow> 'c \<Rightarrow> (('k, 'c, 'w) server_state, unit) action" where
  "registerDefaultRoute svc httpSetup =
     and_then (invoke Http CreateRouter (RouterPath httpSetup ''/core'')
                 (createRouter svc httpSetup ''/core'')) (\<lambda>router.
     invoke Router Get (RouteArgs router \<lparr>path = ''/'', validate = False\<rparr> DefaultRouteHandler)
       (router_get svc router \<lparr>path = ''/'', validate = False\<rparr> DefaultRouteHandler))"

definition registerCoreContext ::
  "('k, 'c, 'w) services \<Rightarrow> 'c core_setup \<Rightarrow> (('k, 'c, 'w) server_state, unit) action" where
  "registerCoreContext svc coreSetup =
     invoke Http RegisterRouteHandlerContext
       (ContextProviderArgs (core_setup.http coreSetup) coreId ''core'' (CoreContextProvider coreSetup))
       (registerRouteHandlerContext svc (core_setup.http coreSetup) coreId ''core''
          (CoreContextProvider coreSetup))"

definition Server_setup ::
  "('k, 'c, 'w) services \<Rightarrow> (('k, 'c, 'w) server_state, 'c core_setup) action" where
  "Server_setup svc =
     and_then (log_debug ''setting up server'') (\<lambda>_.
     and_then (invoke Plugins Discover NoArgs (plugins_discover svc)) (\<lambda>pluginDependencies.
     and_then (invoke Legacy DiscoverPlugins NoArgs (legacy_discoverPlugins svc)) (\<lambda>legacyPlugins.
     and_then (invoke Config EnsureValidConfiguration (ValidationArgs legacyPlugins)
                 (ensureValidConfiguration svc legacyPlugins)) (\<lambda>_.
     let deps = Map_new (pluginDependencies @ [(legacyId svc, Map_keys pluginDependencies)]) in
     and_then (invoke Context Setup (ContextSetupDeps deps) (context_setup svc deps))
       (\<lambda>contextServiceSetup.
     and_then (invoke Http Setup (HttpSetupDeps contextServiceSetup)
                 (http_setup svc contextServiceSetup)) (\<lambda>httpSetup.
     and_then (registerDefaultRoute svc httpSetup) (\<lambda>_.
     and_then (invoke Capabilities Setup (HttpDep httpSetup) (capabilities_setup svc httpSetup))
       (\<lambda>capabilitiesSetup.
     and_then (invoke Elasticsearch Setup (HttpDep httpSetup) (elasticsearch_setup svc httpSetup))
       (\<lambda>elasticsearchServiceSetup.
     and_then (invoke UiSettings Setup (HttpDep httpSetup) (uiSettings_setup svc httpSetup))
       (\<lambda>uiSettingsSetup.
     and_then (invoke SavedObjects Setup
                 (SavedObjectsSetupDeps elasticsearchServiceSetup legacyPlugins)
                 (savedObjects_setup svc elasticsearchServiceSetup legacyPlugins))
       (\<lambda>savedObjectsSetup.
     let coreSetup = \<lparr>core_setup.capabilities = capabilitiesSetup,
                      core_setup.context = contextServiceSetup,
                      core_setup.elasticsearch = elasticsearchServiceSetup,
                      core_setup.http = httpSetup,
                      core_setup.uiSettings = uiSettingsSetup,
                      core_setup.savedObjects = savedObjectsSetup\<rparr> in
     and_then (invoke Plugins Setup (PluginsSetupDeps coreSetup) (plugins_setup svc coreSetup))
       (\<lambda>pluginsSetup.
     let core = core_setup.extend coreSetup (legacy_core_setup.fields pluginsSetup);
         pluginsObject = mapToObject svc (contracts pluginsSetup) in
     and_then (invoke Legacy Setup (LegacySetupDeps core pluginsObject)
                 (legacy_setup svc core pluginsObject)) (\<lambda>_.
     and_then (registerCoreContext svc coreSetup) (\<lambda>_.
     resolve coreSetup))))))))))))))"

definition Server_start ::
  "('k, 'c, 'w) services \<Rightarrow> (('k, 'c, 'w) server_state, ('k, 'c) core_start) action" where
  "Server_start svc =
     and_then (log_debug ''starting server'') (\<lambda>_.
     and_then (invoke SavedObjects Start EmptyObject (savedObjects_start svc))
       (\<lambda>savedObjectsStart.
     and_then (invoke Capabilities Start NoArgs (capabilities_start svc)) (\<lambda>capabilitiesStart.
     and_then (invoke Plugins Start (PluginsStartDeps capabilitiesStart savedObjectsStart)
                 (plugins_start svc capabilitiesStart savedObjectsStart)) (\<lambda>pluginsStart.
     let coreStart = \<lparr>core_start.capabilities = capabilitiesStart,
                      core_start.savedObjects = savedObjectsStart,
                      core_start.plugins = pluginsStart\<rparr>;
         pluginsObject = mapToObject svc (contracts pluginsStart) in
     and_then (invoke Legacy Start (LegacyStartDeps coreStart pluginsObject)
                 (legacy_start svc coreStart pluginsObject)) (\<lambda>_.
     and_then (invoke Http Start NoArgs (http_start svc)) (\<lambda>_.
     resolve coreStart))))))"

definition Server_stop :: "('k, 'c, 'w) services \<Rightarrow> (('k, 'c, 'w) server_state, unit) action" where
  "Server_stop svc =
     and_then (log_debug ''stopping server'') (\<lambda>_.
     and_then (invoke Legacy Stop NoArgs (legacy_stop svc)) (\<lambda>_.
     and_then (invoke Plugins Stop NoArgs (plugins_stop svc)) (\<lambda>_.
     and_then (invoke SavedObjects Stop NoArgs (savedObjects_stop svc)) (\<lambda>_.
     and_then (invoke Elasticsearch Stop NoArgs (elasticsearch_stop svc)) (\<lambda>_.
     invoke Http Stop NoArgs (http_stop svc))))))"

text \<open>The calls made by \<open>setup\<close>, \<open>start\<close> and \<open>stop\<close>, in the order they are made.\<close>

definition setup_sequence :: "(service \<times> operation) list" where
  "setup_sequence =
     [(Plugins, Discover), (Legacy, DiscoverPlugins), (Config, EnsureValidConfiguration),
      (Context, Setup), (Http, Setup), (Http, CreateRouter), (Router, Get),
      (Capabilities, Setup), (Elasticsearch, Setup), (UiSettings, Setup),
      (SavedObjects, Setup), (Plugins, Setup), (Legacy, Setup),
      (Http, RegisterRouteHandlerContext)]"

definition start_sequence :: "(service \<times> operation) list" where
  "start_sequence =
     [(SavedObjects, Start), (Capabilities, Start), (Plugins, Start), (Legacy, Start),
      (Http, Start)]"

definition stop_sequence :: "(service \<times> operation) list" where
  "stop_sequence =
     [(Legacy, Stop), (Plugins, Stop), (SavedObjects, Stop), (Elasticsearch, Stop),
      (Http, Stop)]"

text \<open>
  A run along a sequence: the calls made are an initial part of the sequence, every
  call but the last has resolved, and the run fails exactly with the failure of its
  last call.
\<close>

definition sequential ::
  "(service \<times> operation) list \<Rightarrow> ('k, 'c) call list \<Rightarrow> error + 'a \<Rightarrow> bool" where
  "sequential L t r =
     (case r of
        Inr _ \<Rightarrow> map label t = L \<and> list_all (\<lambda>c. settled c = Resolved) t
      | Inl e \<Rightarrow> t \<noteq> [] \<and> prefix (map label t) L
                 \<and> list_all (\<lambda>c. settled c = Resolved) (butlast t)
                 \<and> settled (last t) = Failed e)"

definition runs ::
  "(('k, 'c, 'w) server_state, 'a) action \<Rightarrow> (service \<times> operation) list \<Rightarrow> bool" where
  "runs m L = (\<forall>s. \<exists>t. calls (snd (m s)) = calls s @ t \<and> sequential L t (fst (m s)))"


section \<open>The default route\<close>

text \<open>
  \<open>res\<close> is the response factory the router passes to a handler; the handler uses its
  member \<open>ok\<close>, which builds the success response from the options it is given. The
  body \<open>{ version: '0.0.1' }\<close> is an object of one property.
\<close>

record response_options =
  body :: "(string \<times> string) list"

record 'r response_factory =
  ok :: "response_options \<Rightarrow> 'r"

definition defaultRouteHandler :: "'ctx \<Rightarrow> 'req \<Rightarrow> 'r response_factory \<Rightarrow> 'r" where
  "defaultRouteHandler ctx req res = ok res \<lparr>body = [(''version'', ''0.0.1'')]\<rparr>"

fun run_route_handler :: "route_handler \<Rightarrow> 'ctx \<Rightarrow> 'req \<Rightarrow> 'r response_factory \<Rightarrow> 'r" where
  "run_route_handler DefaultRouteHandler = defaultRouteHandler"

section \<open>The core request context\<close>

text \<open>
  Modelled from the spec: \<open>pipe(take(1)).toPromise()\<close> on a stream of clients, which
  is not part of the sources. The spec has it resolve to the first value the stream
  emits. A stream that ends before it emitted resolves to \<open>undefined\<close> (\<open>None\<close>)
  when it completes and rejects when it fails. A stream that stays silent for ever is
  not represented.
\<close>

definition take1_toPromise :: "'a observable \<Rightarrow> error + 'a option" where
  "take1_toPromise obs =
     (case emitted obs of
        v # _ \<Rightarrow> Inr (Some v)
      | [] \<Rightarrow> (case failure obs of Some e \<Rightarrow> Inl e | None \<Rightarrow> Inr None))"

text \<open>
  Modelled from the spec: a scoped cluster client, what \<open>asScoped\<close> of a cluster
  client returns (the client is not part of the sources). The spec describes a scoped
  client as a handle bound to one originating request: the handle is the client together
  with the request it is bound to.
\<close>

datatype ('c, 'req) scoped_cluster_client = ScopedClusterClient 'c 'req

text \<open>
  Modelled from the spec: \<open>asScoped\<close>, the member of a cluster client that scopes it
  to a request.
\<close>

definition asScoped :: "'c \<Rightarrow> 'req \<Rightarrow> ('c, 'req) scoped_cluster_client" where
  "asScoped client req = ScopedClusterClient client req"

text \<open>
  Modelled from the spec: the request-scoped saved-objects client, a handle on the
  saved-objects contract bound to one request.
\<close>

datatype ('c, 'req) saved_objects_client = SavedObjectsClient 'c 'req

text \<open>
  Modelled from the spec: \<open>getScopedClient\<close>, the member of the saved-objects setup
  contract that returns the client scoped to a request.
\<close>

definition getScopedClient :: "'c \<Rightarrow> 'req \<Rightarrow> ('c, 'req) saved_objects_client" where
  "getScopedClient savedObjectsSetup req = SavedObjectsClient savedObjectsSetup req"

text \<open>
  Modelled from the spec: the ui-settings client, a handle on the ui-settings contract
  bound to the saved-objects client it is given.
\<close>

datatype ('c, 'req) ui_settings_client = UiSettingsClient 'c "('c, 'req) saved_objects_client"

text \<open>
  Modelled from the spec: \<open>asScopedToClient\<close>, the member of the ui-settings setup
  contract that binds a ui-settings client to a saved-objects client.
\<close>

definition asScopedToClient ::
  "'c \<Rightarrow> ('c, 'req) saved_objects_client \<Rightarrow> ('c, 'req) ui_settings_client" where
  "asScopedToClient uiSettingsSetup savedObjectsClient =
     UiSettingsClient uiSettingsSetup savedObjectsClient"

record ('c, 'req) savedObjects_context =
  client :: "('c, 'req) saved_objects_client"

record ('c, 'req) elasticsearch_context =
  adminClient :: "('c, 'req) scoped_cluster_client"
  dataClient :: "('c, 'req) scoped_cluster_client"

record ('c, 'req) uiSettings_context =
  client :: "('c, 'req) ui_settings_client"

record ('c, 'req) core_context =
  savedObjects :: "('c, 'req) savedObjects_context"
  elasticsearch :: "('c, 'req) elasticsearch_context"
  uiSettings :: "('c, 'req) uiSettings_context"

text \<open>
  The provider registered by \<open>registerCoreContext\<close>. Reading a member of
  \<open>undefined\<close> (a stream that completed without a client) is a \<open>TypeError\<close>.
\<close>

definition coreContextProvider ::
  "'c core_setup \<Rightarrow> 'ctx \<Rightarrow> 'req \<Rightarrow> error + ('c, 'req) core_context" where
  "coreContextProvider coreSetup ctx req =
     (case take1_toPromise (adminClient_obs (core_setup.elasticsearch coreSetup)) of
        Inl e \<Rightarrow> Inl e
      | Inr adminClient' \<Rightarrow>
     (case take1_toPromise (dataClient_obs (core_setup.elasticsearch coreSetup)) of
        Inl e \<Rightarrow> Inl e
      | Inr dataClient' \<Rightarrow>
     let savedObjectsClient = getScopedClient (core_setup.savedObjects coreSetup) req in
     (case adminClient' of
        None \<Rightarrow> Inl (TypeError ''adminClient is undefined'')
      | Some admin \<Rightarrow>
     (case dataClient' of
        None \<Rightarrow> Inl (TypeError ''dataClient is undefined'')
      | Some data \<Rightarrow>
        Inr \<lparr>core_context.savedObjects =
               \<lparr>savedObjects_context.client = savedObjectsClient\<rparr>,
             core_context.elasticsearch =
               \<lparr>adminClient = asScoped admin req, dataClient = asScoped data req\<rparr>,
             core_context.uiSettings =
               \<lparr>uiSettings_context.client =
                  asScopedToClient (core_setup.uiSettings coreSetup) savedObjectsClient\<rparr>\<rparr>))))"

fun run_context_provider ::
  "'c context_provider \<Rightarrow> 'ctx \<Rightarrow> 'req \<Rightarrow> error + ('c, 'req) core_context" where
  "run_context_provider (CoreContextProvider coreSetup) = coreContextProvider coreSetup"

section \<open>Expression functions of the xy visualization\<close>

text \<open>
  An object is the list of its own properties in the order they were created. The
  object literal \<open>{ type: t, ...args }\<close> creates \<open>type\<close> and then defines the
  properties of \<open>args\<close> one after another: a name that is present keeps its place
  and takes the new value.
\<close>

datatype position = Top | Right | Bottom | Left

datatype series_type = Bar | Line | Area | Bar_stacked | Area_stacked

datatype js_value = VBool bool | VString string | VStrings "string list" | VPosition position

type_synonym js_object = "(string \<times> js_value) list"

definition spread :: "js_object \<Rightarrow> js_object \<Rightarrow> js_object" where
  "spread obj src = foldl (\<lambda>obj (k, v). Map_set obj k v) obj src"

definition legendConfig_fn :: "'ctx \<Rightarrow> js_object \<Rightarrow> js_object" where
  "legendConfig_fn ctx args = spread [(''type'', VString ''lens_xy_legendConfig'')] args"

definition xConfig_fn :: "'ctx \<Rightarrow> js_object \<Rightarrow> js_object" where
  "xConfig_fn ctx args = spread [(''type'', VString ''lens_xy_xConfig'')] args"

definition layerConfig_fn :: "'ctx \<Rightarrow> js_object \<Rightarrow> js_object" where
  "layerConfig_fn ctx args = spread [(''type'', VString ''lens_xy_layer'')] args"

text \<open>
  The argument types, as the interfaces declare them, and the objects that are their
  values: a property for each field, none for an optional field that is absent.
\<close>

record LegendConfig =
  isVisible :: bool
  position :: position

record AxisConfig =
  title :: string
  hide :: "bool option"

record XConfig = AxisConfig +
  accessor :: string

record LayerConfig = AxisConfig +
  layerId :: string
  xAccessor :: string
  accessors :: "string list"
  seriesType :: series_type
  splitAccessor :: string

record LayerArgs = LayerConfig +
  columnToLabel :: "string option"

definition optional :: "string \<Rightarrow> ('a \<Rightarrow> js_value) \<Rightarrow> 'a option \<Rightarrow> js_object" where
  "optional name to_value x = (case x of None \<Rightarrow> [] | Some v \<Rightarrow> [(name, to_value v)])"

fun series_type_string :: "series_type \<Rightarrow> string" where
  "series_type_string Bar = ''bar''"
| "series_type_string Line = ''line''"
| "series_type_string Area = ''area''"
| "series_type_string Bar_stacked = ''bar_stacked''"
| "series_type_string Area_stacked = ''area_stacked''"

definition LegendConfig_object :: "LegendConfig \<Rightarrow> js_object" where
  "LegendConfig_object a =
     [(''isVisible'', VBool (isVisible a)), (''position'', VPosition (position a))]"

definition XConfig_object :: "XConfig \<Rightarrow> js_object" where
  "XConfig_object a =
     [(''title'', VString (title a))] @ optional ''hide'' VBool (hide a)
     @ [(''accessor'', VString (accessor a))]"

definition LayerArgs_object :: "LayerArgs \<Rightarrow> js_object" where
  "LayerArgs_object a =
     [(''title'', VString (title a))] @ optional ''hide'' VBool (hide a)
     @ [(''layerId'', VString (layerId a)), (''xAccessor'', VString (xAccessor a)),
        (''accessors'', VStrings (accessors a)),
        (''seriesType'', VString (series_type_string (seriesType a))),
        (''splitAccessor'', VString (splitAccessor a))]
     @ optional ''columnToLabel'' VString (columnToLabel a)"

section \<open>Services for the examples\<close>

text \<open>
  Instrumented services over a world that counts the operations performed: every
  operation returns a fixed contract. Variants that fail are obtained by updating one
  field.
\<close>

definition returning :: "'a \<Rightarrow> (nat, 'a) external" where
  "returning x w = (Inr x, Suc w)"

definition failing :: "error \<Rightarrow> (nat, 'a) external" where
  "failing e w = (Inl e, Suc w)"

definition fake_elasticsearch :: "string elasticsearch_contract" where
  "fake_elasticsearch =
     \<lparr>adminClient_obs = Observable [''admin'', ''admin2''] None,
      dataClient_obs = Observable [''data''] None\<rparr>"

definition fake_services :: "(string, string, nat) services" where
  "fake_services =
     \<lparr>legacyId = ''legacy'',
      mapToObject = (\<lambda>m. concat (map fst m)),
      plugins_discover = returning [(''alerting'', []), (''security'', [''alerting''])],
      legacy_discoverPlugins = returning ''legacyPlugins'',
      ensureValidConfiguration = (\<lambda>_. returning ()),
      context_setup = (\<lambda>_. returning ''contextSetup''),
      http_setup = (\<lambda>_. returning ''httpSetup''),
      createRouter = (\<lambda>_ _. returning ''router''),
      router_get = (\<lambda>_ _ _. returning ()),
      capabilities_setup = (\<lambda>_. returning ''capabilitiesSetup''),
      elasticsearch_setup = (\<lambda>_. returning fake_elasticsearch),
      uiSettings_setup = (\<lambda>_. returning ''uiSettingsSetup''),
      savedObjects_setup = (\<lambda>_ _. returning ''savedObjectsSetup''),
      plugins_setup = (\<lambda>_. returning \<lparr>contracts = [(''alerting'', ''alertingSetup'')]\<rparr>),
      legacy_setup = (\<lambda>_ _. returning ()),
      registerRouteHandlerContext = (\<lambda>_ _ _ _. returning ()),
      savedObjects_start = returning ''savedObjectsStart'',
      capabilities_start = returning ''capabilitiesStart'',
      plugins_start = (\<lambda>_ _. returning \<lparr>contracts = [(''alerting'', ''alertingStart'')]\<rparr>),
      legacy_start = (\<lambda>_ _. returning ()),
      http_start = returning (),
      legacy_stop = returning (),
      plugins_stop = returning (),
      savedObjects_stop = returning (),
      elasticsearch_stop = returning (),
      http_stop = returning ()\<rparr>"

definition fake_core_setup :: "string core_setup" where
  "fake_core_setup =
     \<lparr>core_setup.capabilities = ''capabilitiesSetup'',
      core_setup.context = ''contextSetup'',
      core_setup.elasticsearch = fake_elasticsearch,
      core_setup.http = ''httpSetup'',
      core_setup.uiSettings = ''uiSettingsSetup'',
      core_setup.savedObjects = ''savedObjectsSetup''\<rparr>"

section \<open>Sequencing\<close>

lemma runs_resolve: "runs (resolve x) []"
  by (simp add: runs_def resolve_def sequential_def)

lemma runs_invoke: "runs (invoke sv m a op) [(sv, m)]"
  by (auto simp: runs_def invoke_def sequential_def settle_def label_def
           split: prod.splits sum.splits)

lemma sequential_append:
  assumes "sequential L1 t1 (Inr x)" and "sequential L2 t2 r"
  shows "sequential (L1 @ L2) (t1 @ t2) r"
  using assms
  by (cases r) (auto simp: sequential_def butlast_append)

lemma sequential_extend:
  assumes "sequential L1 t (Inl e :: error + 'a)"
  shows "sequential (L1 @ L2) t (Inl e :: error + 'b)"
  using assms by (auto simp: sequential_def prefix_def)

lemma runs_and_then:
  assumes m: "runs m L1" and f: "\<And>x. runs (f x) L2"
  shows "runs (and_then m f) (L1 @ L2)"
  unfolding runs_def
proof
  fix s
  obtain r s1 where ms: "m s = (r, s1)" by (cases "m s")
  from m obtain t1 where t1: "calls s1 = calls s @ t1" "sequential L1 t1 r"
    unfolding runs_def using ms by (metis fst_conv snd_conv)
  show "\<exists>t. calls (snd (and_then m f s)) = calls s @ t \<and> sequential (L1 @ L2) t (fst (and_then m f s))"
  proof (cases r)
    case (Inl e)
    with ms t1 show ?thesis
      by (auto simp: and_then_def intro: sequential_extend)
  next
    case (Inr x)
    obtain r2 s2 where fs: "f x s1 = (r2, s2)" by (cases "f x s1")
    from f[of x] obtain t2 where t2: "calls s2 = calls s1 @ t2" "sequential L2 t2 r2"
      unfolding runs_def using fs by (metis fst_conv snd_conv)
    have "sequential (L1 @ L2) (t1 @ t2) r2"
      using t1(2) t2(2) Inr by (auto intro: sequential_append)
    with ms Inr fs t1 t2 show ?thesis
      by (auto simp: and_then_def)
  qed
qed

lemma runs_invoke_then:
  assumes "\<And>x. runs (f x) L"
  shows "runs (and_then (invoke sv m a op) f) ((sv, m) # L)"
  using runs_and_then[OF runs_invoke, of f L sv m a op] assms by simp

lemma runs_log_then:
  assumes "runs (f ()) L"
  shows "runs (and_then (log_debug msg) f) L"
  unfolding runs_def
proof
  fix s :: "('a, 'b, 'c) server_state"
  let ?s = "s\<lparr>logged := logged s @ [msg]\<rparr>"
  from assms obtain t where "calls (snd (f () ?s)) = calls ?s @ t" "sequential L t (fst (f () ?s))"
    unfolding runs_def by blast
  then show "\<exists>t. calls (snd (and_then (log_debug msg) f s)) = calls s @ t
       \<and> sequential L t (fst (and_then (log_debug msg) f s))"
    by (auto simp: and_then_def log_debug_def)
qed

lemma runs_registerDefaultRoute:
  "runs (registerDefaultRoute svc h) [(Http, CreateRouter), (Router, Get)]"
  unfolding registerDefaultRoute_def
  by (intro runs_invoke_then runs_invoke)

lemma runs_registerCoreContext:
  "runs (registerCoreContext svc cs) [(Http, RegisterRouteHandlerContext)]"
  unfolding registerCoreContext_def by (rule runs_invoke)

lemma runs_stop: "runs (Server_stop svc) stop_sequence"
  unfolding Server_stop_def stop_sequence_def
  by (intro runs_log_then runs_invoke_then runs_invoke)

lemma runs_start: "runs (Server_start svc) start_sequence"
  unfolding Server_start_def start_sequence_def Let_def
  by (intro runs_log_then runs_invoke_then runs_resolve)

lemma runs_then_append:
  assumes "runs m L1" and "\<And>x. runs (f x) L2" and "L = L1 @ L2"
  shows "runs (and_then m f) L"
  using runs_and_then[OF assms(1,2)] assms(3) by simp

lemma runs_setup: "runs (Server_setup svc) setup_sequence"
  unfolding Server_setup_def setup_sequence_def Let_def
  apply (intro runs_log_then runs_invoke_then)
  apply (rule runs_then_append[OF runs_registerDefaultRoute])
   prefer 2 apply simp
  apply (intro runs_invoke_then)
  apply (rule runs_then_append[OF runs_registerCoreContext])
   apply (rule runs_resolve)
  apply simp
  done


lemma runsD:
  assumes "runs m L" and "calls (snd (m s)) = calls s @ t"
  shows "sequential L t (fst (m s))"
proof -
  from assms(1) obtain t' where "calls (snd (m s)) = calls s @ t'" "sequential L t' (fst (m s))"
    unfolding runs_def by blast
  with assms(2) show ?thesis by simp
qed

lemma and_then_log:
  "and_then (log_debug msg) f s = f () (s\<lparr>logged := logged s @ [msg]\<rparr>)"
  by (simp add: and_then_def log_debug_def)

lemma and_then_invoke_resolved:
  assumes "op (world s) = (Inr x, w')"
  shows "and_then (invoke sv m a op) f s =
           f x (s\<lparr>calls := calls s @ [\<lparr>target = sv, operation = m, passed = a, settled = Resolved\<rparr>],
                  world := w'\<rparr>)"
  using assms by (simp add: and_then_def invoke_def settle_def)

lemma and_then_invoke_failed:
  assumes "op (world s) = (Inl e, w')"
  shows "and_then (invoke sv m a op) f s =
           (Inl e, s\<lparr>calls := calls s @ [\<lparr>target = sv, operation = m, passed = a, settled = Failed e\<rparr>],
                  world := w'\<rparr>)"
  using assms by (simp add: and_then_def invoke_def settle_def)

lemma runs_extends:
  assumes "runs m L"
  obtains t where "calls (snd (m s)) = calls s @ t" "prefix (map label t) L"
proof -
  from assms obtain t where t: "calls (snd (m s)) = calls s @ t" "sequential L t (fst (m s))"
    unfolding runs_def by blast
  then have "prefix (map label t) L"
    by (cases "fst (m s)") (auto simp: sequential_def)
  with t(1) that show ?thesis by blast
qed

lemma invoke_first:
  assumes "\<And>x. runs (f x) L" and "calls s = cs"
  shows "\<exists>c t'. calls (snd (and_then (invoke sv m a op) f s)) = cs @ c # t'
            \<and> target c = sv \<and> operation c = m \<and> passed c = a"
proof -
  obtain r w' where op: "op (world s) = (r, w')" by (cases "op (world s)")
  show ?thesis
  proof (cases r)
    case (Inl e)
    with op assms(2) show ?thesis by (simp add: and_then_invoke_failed)
  next
    case (Inr x)
    let ?s1 = "s\<lparr>calls := calls s @ [\<lparr>target = sv, operation = m, passed = a, settled = Resolved\<rparr>],
                  world := w'\<rparr>"
    from assms(1)[of x] obtain t where "calls (snd (f x ?s1)) = calls ?s1 @ t"
      by (rule runs_extends)
    with op Inr assms(2) show ?thesis by (simp add: and_then_invoke_resolved)
  qed
qed

lemma sequential_prefix:
  assumes "sequential L t r"
  shows "prefix (map label t) L" and "\<forall>c\<in>set (butlast t). settled c = Resolved"
  using assms
  by (cases r; auto simp: sequential_def list_all_iff dest: in_set_butlastD)+

lemma sequential_distinct:
  assumes "sequential L t r" and "distinct L"
  shows "distinct (map label t)"
proof -
  from assms(1) have "prefix (map label t) L" by (rule sequential_prefix)
  then obtain zs where "L = map label t @ zs" by (auto simp: prefix_def)
  with assms(2) show ?thesis by simp
qed

lemma same_label_same_call:
  assumes "distinct (map label t)" and "c \<in> set t" and "c' \<in> set t" and "label c = label c'"
  shows "c = c'"
  using assms by (meson distinct_map inj_on_def)

lemma prefix_reaches_last:
  assumes "prefix xs (ys @ [y])" and "y \<in> set xs" and "distinct (ys @ [y])"
  shows "xs = ys @ [y]"
proof -
  from assms(1) obtain zs where zs: "ys @ [y] = xs @ zs" by (auto simp: prefix_def)
  show ?thesis
  proof (cases zs rule: rev_cases)
    case Nil
    with zs show ?thesis by simp
  next
    case (snoc zs' z)
    with zs have "ys = xs @ zs'" by simp
    with assms(2,3) show ?thesis by auto
  qed
qed

lemma last_call_of_label:
  assumes "distinct (map label t)" and "c \<in> set t" and "label c = last (map label t)"
  shows "c = last t"
proof -
  from assms(2) have ne: "t \<noteq> []" by auto
  then have "last t \<in> set t" by simp
  moreover have "label (last t) = label c" using ne assms(3) by (simp add: last_map)
  ultimately show ?thesis using assms(1,2) same_label_same_call by metis
qed

lemma Map_set_fresh:
  "k \<notin> set (Map_keys m) \<Longrightarrow> Map_set m k v = m @ [(k, v)]"
  by (induction m) (auto simp: Map_keys_def)

lemma foldl_Map_set_distinct:
  "distinct (map fst (acc @ es)) \<Longrightarrow> foldl (\<lambda>m (k, v). Map_set m k v) acc es = acc @ es"
proof (induction es arbitrary: acc)
  case Nil
  then show ?case by simp
next
  case (Cons e es)
  obtain k v where e: "e = (k, v)" by (cases e)
  from Cons.prems e have fresh: "k \<notin> set (Map_keys acc)"
    by (auto simp: Map_keys_def)
  from Cons.prems e have "distinct (map fst ((acc @ [(k, v)]) @ es))" by simp
  then have "foldl (\<lambda>m (k, v). Map_set m k v) (acc @ [(k, v)]) es = (acc @ [(k, v)]) @ es"
    by (rule Cons.IH)
  with e fresh show ?case by (simp add: Map_set_fresh)
qed



lemma rejected_ends_failed:
  assumes "runs m L" and "calls (snd (m s)) = calls s @ t" and "fst (m s) = Inl e"
  shows "t \<noteq> [] \<and> settled (last t) = Failed e"
  using runsD[OF assms(1,2)] assms(3) by (simp add: sequential_def)

lemma stop_run:
  assumes "legacy_stop svc (world s) = (Inr (), w1)"
    and "plugins_stop svc w1 = (Inr (), w2)"
    and "savedObjects_stop svc w2 = (Inr (), w3)"
    and "elasticsearch_stop svc w3 = (Inr (), w4)"
    and "http_stop svc w4 = (Inr (), w5)"
  shows "Server_stop svc s =
     (Inr (),
      s\<lparr>calls := calls s @
            [\<lparr>target = Legacy, operation = Stop, passed = NoArgs, settled = Resolved\<rparr>,
             \<lparr>target = Plugins, operation = Stop, passed = NoArgs, settled = Resolved\<rparr>,
             \<lparr>target = SavedObjects, operation = Stop, passed = NoArgs, settled = Resolved\<rparr>,
             \<lparr>target = Elasticsearch, operation = Stop, passed = NoArgs, settled = Resolved\<rparr>,
             \<lparr>target = Http, operation = Stop, passed = NoArgs, settled = Resolved\<rparr>],
         logged := logged s @ [''stopping server''],
         world := w5\<rparr>)"
  using assms
  by (simp add: Server_stop_def and_then_def invoke_def log_debug_def settle_def)

lemma stop_resolved_chain:
  assumes "fst (Server_stop svc s) = Inr u"
  shows "\<exists>v1 v2 v3 v4 v5.
           legacy_stop svc (world s) = (Inr (), v1) \<and> plugins_stop svc v1 = (Inr (), v2)
           \<and> savedObjects_stop svc v2 = (Inr (), v3) \<and> elasticsearch_stop svc v3 = (Inr (), v4)
           \<and> http_stop svc v4 = (Inr (), v5) \<and> world (snd (Server_stop svc s)) = v5"
  using assms
  by (auto simp: Server_stop_def and_then_def invoke_def log_debug_def
           split: prod.splits sum.splits)

lemma start_run:
  assumes "savedObjects_start svc (world s) = (Inr sos, w1)"
    and "capabilities_start svc w1 = (Inr cs, w2)"
    and "plugins_start svc cs sos w2 = (Inr ps, w3)"
    and "legacy_start svc
           \<lparr>core_start.capabilities = cs, core_start.savedObjects = sos, core_start.plugins = ps\<rparr>
           (mapToObject svc (contracts ps)) w3 = (Inr (), w4)"
    and "http_start svc w4 = (r, w5)"
  shows "Server_start svc s =
     (case r of Inl e \<Rightarrow> Inl e
      | Inr _ \<Rightarrow> Inr \<lparr>core_start.capabilities = cs, core_start.savedObjects = sos,
                      core_start.plugins = ps\<rparr>,
      s\<lparr>calls := calls s @
            [\<lparr>target = SavedObjects, operation = Start, passed = EmptyObject, settled = Resolved\<rparr>,
             \<lparr>target = Capabilities, operation = Start, passed = NoArgs, settled = Resolved\<rparr>,
             \<lparr>target = Plugins, operation = Start, passed = PluginsStartDeps cs sos,
                settled = Resolved\<rparr>,
             \<lparr>target = Legacy, operation = Start,
                passed = LegacyStartDeps
                  \<lparr>core_start.capabilities = cs, core_start.savedObjects = sos,
                   core_start.plugins = ps\<rparr>
                  (mapToObject svc (contracts ps)),
                settled = Resolved\<rparr>,
             \<lparr>target = Http, operation = Start, passed = NoArgs, settled = settle r\<rparr>],
         logged := logged s @ [''starting server''],
         world := w5\<rparr>)"
  using assms
  by (cases r)
     (simp_all add: Server_start_def and_then_def invoke_def log_debug_def settle_def resolve_def
        Let_def)

lemma start_http_chain:
  assumes "calls (snd (Server_start svc s)) = calls s @ t"
    and "c \<in> set t" and "label c = (Http, Start)"
  shows "\<exists>sos w1 cs w2 ps w3 w4.
           savedObjects_start svc (world s) = (Inr sos, w1)
           \<and> capabilities_start svc w1 = (Inr cs, w2)
           \<and> plugins_start svc cs sos w2 = (Inr ps, w3)
           \<and> legacy_start svc
                \<lparr>core_start.capabilities = cs, core_start.savedObjects = sos,
                 core_start.plugins = ps\<rparr>
                (mapToObject svc (contracts ps)) w3 = (Inr (), w4)"
  using assms
  by (auto simp: Server_start_def and_then_def invoke_def log_debug_def Let_def label_def
           split: prod.splits sum.splits)

lemma setup_validation_fails:
  assumes "plugins_discover svc (world s) = (Inr deps, w1)"
    and "legacy_discoverPlugins svc w1 = (Inr lp, w2)"
    and "ensureValidConfiguration svc lp w2 = (Inl e, w3)"
  shows "Server_setup svc s =
        (Inl e, s\<lparr>calls := calls s @
                    [\<lparr>target = Plugins, operation = Discover, passed = NoArgs, settled = Resolved\<rparr>,
                     \<lparr>target = Legacy, operation = DiscoverPlugins, passed = NoArgs, settled = Resolved\<rparr>,
                     \<lparr>target = Config, operation = EnsureValidConfiguration,
                        passed = ValidationArgs lp, settled = Failed e\<rparr>],
                  logged := logged s @ [''setting up server''],
                  world := w3\<rparr>)"
  using assms
  by (simp add: Server_setup_def and_then_log and_then_invoke_failed
        and_then_invoke_resolved[where x = deps and w' = w1]
        and_then_invoke_resolved[where x = lp and w' = w2])

lemma setup_call_chain:
  assumes t: "calls (snd (Server_setup svc s)) = calls s @ t"
    and c: "c \<in> set t" and o: "operation c = Setup"
  shows "\<exists>deps w1 lp w2 w3.
           plugins_discover svc (world s) = (Inr deps, w1)
           \<and> legacy_discoverPlugins svc w1 = (Inr lp, w2)
           \<and> ensureValidConfiguration svc lp w2 = (Inr (), w3)"
proof -
  obtain r1 w1 where d: "plugins_discover svc (world s) = (r1, w1)"
    by (cases "plugins_discover svc (world s)")
  show ?thesis
  proof (cases r1)
    case (Inl e)
    with d have "Server_setup svc s =
        (Inl e, s\<lparr>logged := logged s @ [''setting up server''],
                  calls := calls s @ [\<lparr>target = Plugins, operation = Discover, passed = NoArgs, settled = Failed e\<rparr>],
                  world := w1\<rparr>)"
      by (simp add: Server_setup_def and_then_log and_then_invoke_failed)
    with t c o show ?thesis by auto
  next
    case (Inr deps)
    note deps = this
    obtain r2 w2 where l: "legacy_discoverPlugins svc w1 = (r2, w2)"
      by (cases "legacy_discoverPlugins svc w1")
    show ?thesis
    proof (cases r2)
      case (Inl e)
      with d deps l have "Server_setup svc s =
        (Inl e, s\<lparr>logged := logged s @ [''setting up server''],
                  calls := calls s @ [\<lparr>target = Plugins, operation = Discover, passed = NoArgs, settled = Resolved\<rparr>,
                      \<lparr>target = Legacy, operation = DiscoverPlugins, passed = NoArgs, settled = Failed e\<rparr>],
                  world := w2\<rparr>)"
        by (simp add: Server_setup_def and_then_log and_then_invoke_failed
              and_then_invoke_resolved[where x = deps and w' = w1])
      with t c o show ?thesis by auto
    next
      case (Inr lp)
      obtain r3 w3 where v: "ensureValidConfiguration svc lp w2 = (r3, w3)"
        by (cases "ensureValidConfiguration svc lp w2")
      show ?thesis
      proof (cases r3)
        case (Inl e)
        with d deps l Inr v have "Server_setup svc s =
            (Inl e, s\<lparr>calls := calls s @
                    [\<lparr>target = Plugins, operation = Discover, passed = NoArgs, settled = Resolved\<rparr>,
                     \<lparr>target = Legacy, operation = DiscoverPlugins, passed = NoArgs, settled = Resolved\<rparr>,
                     \<lparr>target = Config, operation = EnsureValidConfiguration,
                        passed = ValidationArgs lp, settled = Failed e\<rparr>],
                  logged := logged s @ [''setting up server''],
                  world := w3\<rparr>)"
          by (simp add: setup_validation_fails)
        with t c o show ?thesis by auto
      next
        case (Inr u)
        with d deps l \<open>r2 = Inr lp\<close> v show ?thesis by auto
      qed
    qed
  qed
qed

lemma setup_run:
  assumes "plugins_discover svc (world s) = (Inr deps, w1)"
    and "legacy_discoverPlugins svc w1 = (Inr lp, w2)"
    and "ensureValidConfiguration svc lp w2 = (Inr (), w3)"
    and "context_setup svc (Map_new (deps @ [(legacyId svc, Map_keys deps)])) w3 = (Inr cx, w4)"
    and "http_setup svc cx w4 = (Inr ht, w5)"
    and "createRouter svc ht ''/core'' w5 = (Inr router, w6)"
    and "router_get svc router \<lparr>path = ''/'', validate = False\<rparr> DefaultRouteHandler w6 = (Inr (), w7)"
    and "capabilities_setup svc ht w7 = (Inr ca, w8)"
    and "elasticsearch_setup svc ht w8 = (Inr es, w9)"
    and "uiSettings_setup svc ht w9 = (Inr ui, w10)"
    and "savedObjects_setup svc es lp w10 = (Inr so, w11)"
    and "coreSetup = \<lparr>core_setup.capabilities = ca, core_setup.context = cx,
                       core_setup.elasticsearch = es, core_setup.http = ht,
                       core_setup.uiSettings = ui, core_setup.savedObjects = so\<rparr>"
    and "plugins_setup svc coreSetup w11 = (Inr pl, w12)"
    and "legacy_setup svc (core_setup.extend coreSetup (legacy_core_setup.fields pl))
           (mapToObject svc (contracts pl)) w12 = (Inr (), w13)"
    and "registerRouteHandlerContext svc ht coreId ''core'' (CoreContextProvider coreSetup) w13
           = (Inr (), w14)"
  shows "Server_setup svc s =
     (Inr coreSetup,
      s\<lparr>calls := calls s @
            [\<lparr>target = Plugins, operation = Discover, passed = NoArgs, settled = Resolved\<rparr>,
             \<lparr>target = Legacy, operation = DiscoverPlugins, passed = NoArgs, settled = Resolved\<rparr>,
             \<lparr>target = Config, operation = EnsureValidConfiguration,
                passed = ValidationArgs lp, settled = Resolved\<rparr>,
             \<lparr>target = Context, operation = Setup,
                passed = ContextSetupDeps (Map_new (deps @ [(legacyId svc, Map_keys deps)])),
                settled = Resolved\<rparr>,
             \<lparr>target = Http, operation = Setup, passed = HttpSetupDeps cx, settled = Resolved\<rparr>,
             \<lparr>target = Http, operation = CreateRouter, passed = RouterPath ht ''/core'',
                settled = Resolved\<rparr>,
             \<lparr>target = Router, operation = Get,
                passed = RouteArgs router \<lparr>path = ''/'', validate = False\<rparr> DefaultRouteHandler,
                settled = Resolved\<rparr>,
             \<lparr>target = Capabilities, operation = Setup, passed = HttpDep ht, settled = Resolved\<rparr>,
             \<lparr>target = Elasticsearch, operation = Setup, passed = HttpDep ht, settled = Resolved\<rparr>,
             \<lparr>target = UiSettings, operation = Setup, passed = HttpDep ht, settled = Resolved\<rparr>,
             \<lparr>target = SavedObjects, operation = Setup, passed = SavedObjectsSetupDeps es lp,
                settled = Resolved\<rparr>,
             \<lparr>target = Plugins, operation = Setup, passed = PluginsSetupDeps coreSetup,
                settled = Resolved\<rparr>,
             \<lparr>target = Legacy, operation = Setup,
                passed = LegacySetupDeps (core_setup.extend coreSetup (legacy_core_setup.fields pl))
                           (mapToObject svc (contracts pl)),
                settled = Resolved\<rparr>,
             \<lparr>target = Http, operation = RegisterRouteHandlerContext,
                passed = ContextProviderArgs ht coreId ''core'' (CoreContextProvider coreSetup),
                settled = Resolved\<rparr>],
         logged := logged s @ [''setting up server''],
         world := w14\<rparr>)"
  using assms
  by (simp add: Server_setup_def registerDefaultRoute_def registerCoreContext_def and_then_def
        invoke_def log_debug_def settle_def resolve_def Let_def)

lemma no_start_in_setup:
  assumes "prefix (map label t) setup_sequence" and "c \<in> set t"
  shows "operation c \<noteq> Start"
proof -
  from assms(2) have "label c \<in> set (map label t)" by simp
  with assms(1) have "label c \<in> set setup_sequence" using set_mono_prefix by blast
  then show ?thesis by (auto simp: setup_sequence_def label_def)
qed

section \<open>Setting up\<close>

lemma setup_filter:
  "[sv. (sv, m) \<leftarrow> setup_sequence, m = Setup] =
     [Context, Http, Capabilities, Elasticsearch, UiSettings, SavedObjects, Plugins, Legacy]"
  by (simp add: setup_sequence_def)



lemma setup_trace:
  assumes t: "calls (snd (Server_setup svc s)) = calls s @ t"
  shows "prefix (map label t) setup_sequence
         \<and> (\<forall>c\<in>set (butlast t). settled c = Resolved)
         \<and> (\<forall>x. fst (Server_setup svc s) = Inr x \<longrightarrow>
               map label t = setup_sequence \<and> (\<forall>c\<in>set t. settled c = Resolved))
         \<and> (\<forall>c\<in>set t. operation c = Setup \<longrightarrow>
               (\<exists>d l t'. t = d # l # t' \<and> c \<in> set t'
                  \<and> label d = (Plugins, Discover) \<and> settled d = Resolved
                  \<and> label l = (Legacy, DiscoverPlugins) \<and> settled l = Resolved))
         \<and> [sv. (sv, m) \<leftarrow> setup_sequence, m = Setup] =
             [Context, Http, Capabilities, Elasticsearch, UiSettings, SavedObjects, Plugins, Legacy]"
proof -
  have seq: "sequential setup_sequence t (fst (Server_setup svc s))"
    using runs_setup t by (rule runsD)
  have pre: "prefix (map label t) setup_sequence"
    and bl: "\<forall>c\<in>set (butlast t). settled c = Resolved"
    using sequential_prefix[OF seq] by blast+
  have ok: "map label t = setup_sequence \<and> (\<forall>c\<in>set t. settled c = Resolved)"
    if "fst (Server_setup svc s) = Inr x" for x
    using seq that by (simp add: sequential_def list_all_iff)
  have disc: "\<exists>d l t'. t = d # l # t' \<and> c \<in> set t'
                  \<and> label d = (Plugins, Discover) \<and> settled d = Resolved
                  \<and> label l = (Legacy, DiscoverPlugins) \<and> settled l = Resolved"
    if c: "c \<in> set t" and o: "operation c = Setup" for c
  proof -
    from c obtain d t1 where t1: "t = d # t1" by (cases t) auto
    with pre have d: "label d = (Plugins, Discover)"
      and pre1: "prefix (map label t1) (tl setup_sequence)"
      by (simp_all add: setup_sequence_def)
    from d o have "c \<noteq> d" by (auto simp: label_def)
    with c t1 have c1: "c \<in> set t1" by simp
    then obtain l t' where t': "t1 = l # t'" by (cases t1) auto
    with pre1 have l: "label l = (Legacy, DiscoverPlugins)"
      by (simp add: setup_sequence_def)
    from l o have "c \<noteq> l" by (auto simp: label_def)
    with c1 t' have c2: "c \<in> set t'" by simp
    then have "t' \<noteq> []" by auto
    then have "butlast t = d # l # butlast t'" using t1 t' by simp
    with bl have "settled d = Resolved" "settled l = Resolved" by simp_all
    with t1 t' c2 d l show ?thesis by blast
  qed
  from pre bl ok disc setup_filter show ?thesis by blast
qed

text \<open>
  Claim C1. When every call resolves in turn, each in the world its predecessor left,
  \<open>Server.setup()\<close> runs the two discoveries, the validation, and then the setup of
  context, http, (the two calls that register the default route), capabilities,
  elasticsearch, ui-settings, saved-objects, plugins and legacy and the registration of
  the core context, once each and in that order, and resolves with the core setup
  contract. In every run the calls made are an initial part of that sequence, every
  call but the last has resolved and a run that rejects ends at the call that failed;
  a setup of a service is called only after both discoveries (and the validation) have
  been run and have resolved.
\<close>

theorem Server_setup_order:
  "(calls (snd (Server_setup svc s)) = calls s @ t \<longrightarrow>
      prefix (map label t) setup_sequence
      \<and> (\<forall>c\<in>set (butlast t). settled c = Resolved)
      \<and> (\<forall>e. fst (Server_setup svc s) = Inl e \<longrightarrow> t \<noteq> [] \<and> settled (last t) = Failed e)
      \<and> (\<forall>x. fst (Server_setup svc s) = Inr x \<longrightarrow>
            map label t = setup_sequence \<and> (\<forall>c\<in>set t. settled c = Resolved)
            \<and> [sv. (sv, m) \<leftarrow> map label t, m = Setup] =
                [Context, Http, Capabilities, Elasticsearch, UiSettings, SavedObjects, Plugins,
                 Legacy])
      \<and> (\<forall>c\<in>set t. operation c = Setup \<longrightarrow>
            (\<exists>d l t'. t = d # l # t' \<and> c \<in> set t'
               \<and> label d = (Plugins, Discover) \<and> settled d = Resolved
               \<and> label l = (Legacy, DiscoverPlugins) \<and> settled l = Resolved)
            \<and> (\<exists>deps v1 lp v2 v3.
                  plugins_discover svc (world s) = (Inr deps, v1)
                  \<and> legacy_discoverPlugins svc v1 = (Inr lp, v2)
                  \<and> ensureValidConfiguration svc lp v2 = (Inr (), v3))))
   \<and> (plugins_discover svc (world s) = (Inr deps, w1) \<longrightarrow>
      legacy_discoverPlugins svc w1 = (Inr lp, w2) \<longrightarrow>
      ensureValidConfiguration svc lp w2 = (Inr (), w3) \<longrightarrow>
      context_setup svc (Map_new (deps @ [(legacyId svc, Map_keys deps)])) w3 = (Inr cx, w4) \<longrightarrow>
      http_setup svc cx w4 = (Inr ht, w5) \<longrightarrow>
      createRouter svc ht ''/core'' w5 = (Inr router, w6) \<longrightarrow>
      router_get svc router \<lparr>path = ''/'', validate = False\<rparr> DefaultRouteHandler w6
        = (Inr (), w7) \<longrightarrow>
      capabilities_setup svc ht w7 = (Inr ca, w8) \<longrightarrow>
      elasticsearch_setup svc ht w8 = (Inr es, w9) \<longrightarrow>
      uiSettings_setup svc ht w9 = (Inr ui, w10) \<longrightarrow>
      savedObjects_setup svc es lp w10 = (Inr so, w11) \<longrightarrow>
      coreSetup = \<lparr>core_setup.capabilities = ca, core_setup.context = cx,
                    core_setup.elasticsearch = es, core_setup.http = ht,
                    core_setup.uiSettings = ui, core_setup.savedObjects = so\<rparr> \<longrightarrow>
      plugins_setup svc coreSetup w11 = (Inr pl, w12) \<longrightarrow>
      legacy_setup svc (core_setup.extend coreSetup (legacy_core_setup.fields pl))
        (mapToObject svc (contracts pl)) w12 = (Inr (), w13) \<longrightarrow>
      registerRouteHandlerContext svc ht coreId ''core'' (CoreContextProvider coreSetup) w13
        = (Inr (), w14) \<longrightarrow>
      Server_setup svc s =
        (Inr coreSetup,
         s\<lparr>calls := calls s @
            [\<lparr>target = Plugins, operation = Discover, passed = NoArgs, settled = Resolved\<rparr>,
             \<lparr>target = Legacy, operation = DiscoverPlugins, passed = NoArgs, settled = Resolved\<rparr>,
             \<lparr>target = Config, operation = EnsureValidConfiguration,
                passed = ValidationArgs lp, settled = Resolved\<rparr>,
             \<lparr>target = Context, operation = Setup,
                passed = ContextSetupDeps (Map_new (deps @ [(legacyId svc, Map_keys deps)])),
                settled = Resolved\<rparr>,
             \<lparr>target = Http, operation = Setup, passed = HttpSetupDeps cx, settled = Resolved\<rparr>,
             \<lparr>target = Http, operation = CreateRouter, passed = RouterPath ht ''/core'',
                settled = Resolved\<rparr>,
             \<lparr>target = Router, operation = Get,
                passed = RouteArgs router \<lparr>path = ''/'', validate = False\<rparr> DefaultRouteHandler,
                settled = Resolved\<rparr>,
             \<lparr>target = Capabilities, operation = Setup, passed = HttpDep ht, settled = Resolved\<rparr>,
             \<lparr>target = Elasticsearch, operation = Setup, passed = HttpDep ht, settled = Resolved\<rparr>,
             \<lparr>target = UiSettings, operation = Setup, passed = HttpDep ht, settled = Resolved\<rparr>,
             \<lparr>target = SavedObjects, operation = Setup, passed = SavedObjectsSetupDeps es lp,
                settled = Resolved\<rparr>,
             \<lparr>target = Plugins, operation = Setup, passed = PluginsSetupDeps coreSetup,
                settled = Resolved\<rparr>,
             \<lparr>target = Legacy, operation = Setup,
                passed = LegacySetupDeps (core_setup.extend coreSetup (legacy_core_setup.fields pl))
                           (mapToObject svc (contracts pl)),
                settled = Resolved\<rparr>,
             \<lparr>target = Http, operation = RegisterRouteHandlerContext,
                passed = ContextProviderArgs ht coreId ''core'' (CoreContextProvider coreSetup),
                settled = Resolved\<rparr>],
           logged := logged s @ [''setting up server''],
           world := w14\<rparr>))"
proof (intro conjI impI)
  assume t: "calls (snd (Server_setup svc s)) = calls s @ t"
  note tr = setup_trace[OF t]
  from tr show "prefix (map label t) setup_sequence" by blast
  from tr show "\<forall>c\<in>set (butlast t). settled c = Resolved" by blast
  show "\<forall>e. fst (Server_setup svc s) = Inl e \<longrightarrow> t \<noteq> [] \<and> settled (last t) = Failed e"
    using rejected_ends_failed[OF runs_setup t] by blast
  show "\<forall>x. fst (Server_setup svc s) = Inr x \<longrightarrow>
            map label t = setup_sequence \<and> (\<forall>c\<in>set t. settled c = Resolved)
            \<and> [sv. (sv, m) \<leftarrow> map label t, m = Setup] =
                [Context, Http, Capabilities, Elasticsearch, UiSettings, SavedObjects, Plugins,
                 Legacy]"
  proof (intro allI impI)
    fix x assume "fst (Server_setup svc s) = Inr x"
    with tr have l: "map label t = setup_sequence" and r: "\<forall>c\<in>set t. settled c = Resolved"
      by blast+
    from l have "[sv. (sv, m) \<leftarrow> map label t, m = Setup] =
                [Context, Http, Capabilities, Elasticsearch, UiSettings, SavedObjects, Plugins,
                 Legacy]"
      by (simp only: setup_filter)
    with l r show "map label t = setup_sequence \<and> (\<forall>c\<in>set t. settled c = Resolved)
            \<and> [sv. (sv, m) \<leftarrow> map label t, m = Setup] =
                [Context, Http, Capabilities, Elasticsearch, UiSettings, SavedObjects, Plugins,
                 Legacy]"
      by blast
  qed
  show "\<forall>c\<in>set t. operation c = Setup \<longrightarrow>
            (\<exists>d l t'. t = d # l # t' \<and> c \<in> set t'
               \<and> label d = (Plugins, Discover) \<and> settled d = Resolved
               \<and> label l = (Legacy, DiscoverPlugins) \<and> settled l = Resolved)
            \<and> (\<exists>deps v1 lp v2 v3.
                  plugins_discover svc (world s) = (Inr deps, v1)
                  \<and> legacy_discoverPlugins svc v1 = (Inr lp, v2)
                  \<and> ensureValidConfiguration svc lp v2 = (Inr (), v3))"
    using tr setup_call_chain[OF t] by blast
next
  assume "plugins_discover svc (world s) = (Inr deps, w1)"
    "legacy_discoverPlugins svc w1 = (Inr lp, w2)"
    "ensureValidConfiguration svc lp w2 = (Inr (), w3)"
    "context_setup svc (Map_new (deps @ [(legacyId svc, Map_keys deps)])) w3 = (Inr cx, w4)"
    "http_setup svc cx w4 = (Inr ht, w5)"
    "createRouter svc ht ''/core'' w5 = (Inr router, w6)"
    "router_get svc router \<lparr>path = ''/'', validate = False\<rparr> DefaultRouteHandler w6
        = (Inr (), w7)"
    "capabilities_setup svc ht w7 = (Inr ca, w8)"
    "elasticsearch_setup svc ht w8 = (Inr es, w9)"
    "uiSettings_setup svc ht w9 = (Inr ui, w10)"
    "savedObjects_setup svc es lp w10 = (Inr so, w11)"
    "coreSetup = \<lparr>core_setup.capabilities = ca, core_setup.context = cx,
                    core_setup.elasticsearch = es, core_setup.http = ht,
                    core_setup.uiSettings = ui, core_setup.savedObjects = so\<rparr>"
    "plugins_setup svc coreSetup w11 = (Inr pl, w12)"
    "legacy_setup svc (core_setup.extend coreSetup (legacy_core_setup.fields pl))
        (mapToObject svc (contracts pl)) w12 = (Inr (), w13)"
    "registerRouteHandlerContext svc ht coreId ''core'' (CoreContextProvider coreSetup) w13
        = (Inr (), w14)"
  then show "Server_setup svc s =
        (Inr coreSetup,
         s\<lparr>calls := calls s @
            [\<lparr>target = Plugins, operation = Discover, passed = NoArgs, settled = Resolved\<rparr>,
             \<lparr>target = Legacy, operation = DiscoverPlugins, passed = NoArgs, settled = Resolved\<rparr>,
             \<lparr>target = Config, operation = EnsureValidConfiguration,
                passed = ValidationArgs lp, settled = Resolved\<rparr>,
             \<lparr>target = Context, operation = Setup,
                passed = ContextSetupDeps (Map_new (deps @ [(legacyId svc, Map_keys deps)])),
                settled = Resolved\<rparr>,
             \<lparr>target = Http, operation = Setup, passed = HttpSetupDeps cx, settled = Resolved\<rparr>,
             \<lparr>target = Http, operation = CreateRouter, passed = RouterPath ht ''/core'',
                settled = Resolved\<rparr>,
             \<lparr>target = Router, operation = Get,
                passed = RouteArgs router \<lparr>path = ''/'', validate = False\<rparr> DefaultRouteHandler,
                settled = Resolved\<rparr>,
             \<lparr>target = Capabilities, operation = Setup, passed = HttpDep ht, settled = Resolved\<rparr>,
             \<lparr>target = Elasticsearch, operation = Setup, passed = HttpDep ht, settled = Resolved\<rparr>,
             \<lparr>target = UiSettings, operation = Setup, passed = HttpDep ht, settled = Resolved\<rparr>,
             \<lparr>target = SavedObjects, operation = Setup, passed = SavedObjectsSetupDeps es lp,
                settled = Resolved\<rparr>,
             \<lparr>target = Plugins, operation = Setup, passed = PluginsSetupDeps coreSetup,
                settled = Resolved\<rparr>,
             \<lparr>target = Legacy, operation = Setup,
                passed = LegacySetupDeps (core_setup.extend coreSetup (legacy_core_setup.fields pl))
                           (mapToObject svc (contracts pl)),
                settled = Resolved\<rparr>,
             \<lparr>target = Http, operation = RegisterRouteHandlerContext,
                passed = ContextProviderArgs ht coreId ''core'' (CoreContextProvider coreSetup),
                settled = Resolved\<rparr>],
           logged := logged s @ [''setting up server''],
           world := w14\<rparr>)"
    by (rule setup_run)
qed

theorem Server_setup_order_witness:
  "map label (calls (snd (Server_setup fake_services (Server_new 0)))) = setup_sequence
   \<and> fst (Server_setup fake_services (Server_new 0)) = Inr fake_core_setup
   \<and> world (snd (Server_setup fake_services (Server_new 0))) = 14
   \<and> [sv. (sv, m) \<leftarrow> map label (calls (snd (Server_setup fake_services (Server_new 0)))), m = Setup] =
       [Context, Http, Capabilities, Elasticsearch, UiSettings, SavedObjects, Plugins, Legacy]"
proof -
  note th = Server_setup_order[where svc = fake_services and s = "Server_new 0"
      and deps = "[(''alerting'', []), (''security'', [''alerting''])]" and ?w1.0 = 1
      and lp = "''legacyPlugins''" and ?w2.0 = 2 and ?w3.0 = 3
      and cx = "''contextSetup''" and ?w4.0 = 4 and ht = "''httpSetup''" and ?w5.0 = 5
      and router = "''router''" and ?w6.0 = 6 and ?w7.0 = 7
      and ca = "''capabilitiesSetup''" and ?w8.0 = 8 and es = fake_elasticsearch and ?w9.0 = 9
      and ui = "''uiSettingsSetup''" and ?w10.0 = 10 and so = "''savedObjectsSetup''"
      and ?w11.0 = 11 and coreSetup = fake_core_setup
      and pl = "\<lparr>contracts = [(''alerting'', ''alertingSetup'')]\<rparr>" and ?w12.0 = 12
      and ?w13.0 = 13 and ?w14.0 = 14
      and t = "calls (snd (Server_setup fake_services (Server_new 0)))"]
  from th[THEN conjunct2] have eq:
    "fst (Server_setup fake_services (Server_new 0)) = Inr fake_core_setup
     \<and> world (snd (Server_setup fake_services (Server_new 0))) = 14
     \<and> length (calls (snd (Server_setup fake_services (Server_new 0)))) = 14"
    by (simp add: fake_services_def Server_new_def returning_def fake_core_setup_def)
  have tr: "calls (snd (Server_setup fake_services (Server_new 0))) =
      calls (Server_new 0 :: (string, string, nat) server_state)
      @ calls (snd (Server_setup fake_services (Server_new 0)))"
    by (simp add: Server_new_def)
  from th[THEN conjunct1, THEN mp, OF tr] have
    "\<forall>x. fst (Server_setup fake_services (Server_new 0)) = Inr x \<longrightarrow>
       map label (calls (snd (Server_setup fake_services (Server_new 0)))) = setup_sequence
       \<and> [sv. (sv, m) \<leftarrow> map label (calls (snd (Server_setup fake_services (Server_new 0)))), m = Setup] =
         [Context, Http, Capabilities, Elasticsearch, UiSettings, SavedObjects, Plugins, Legacy]"
    by blast
  with eq show ?thesis by blast
qed


text \<open>
  Claim C2. When the validation of the configuration, run after the two discoveries
  on the plugins they found, fails, \<open>Server.setup()\<close> rejects with that failure and
  has made the two discovery calls and the validation only. In every run no start is
  called, and a setup of a service is called only when the validation was run and
  resolved.
\<close>

theorem invalid_configuration_aborts_setup:
  "(plugins_discover svc (world s) = (Inr deps, w1) \<longrightarrow>
    legacy_discoverPlugins svc w1 = (Inr lp, w2) \<longrightarrow>
    ensureValidConfiguration svc lp w2 = (Inl e, w3) \<longrightarrow>
    Server_setup svc s =
      (Inl e,
       s\<lparr>calls := calls s @
             [\<lparr>target = Plugins, operation = Discover, passed = NoArgs, settled = Resolved\<rparr>,
              \<lparr>target = Legacy, operation = DiscoverPlugins, passed = NoArgs, settled = Resolved\<rparr>,
              \<lparr>target = Config, operation = EnsureValidConfiguration,
                 passed = ValidationArgs lp, settled = Failed e\<rparr>],
          logged := logged s @ [''setting up server''],
          world := w3\<rparr>))
   \<and> (calls (snd (Server_setup svc s)) = calls s @ t \<longrightarrow>
      (\<forall>c\<in>set t. operation c \<noteq> Start)
      \<and> (\<forall>c\<in>set t. operation c = Setup \<longrightarrow>
            (\<exists>deps v1 lp v2 v3.
               plugins_discover svc (world s) = (Inr deps, v1)
               \<and> legacy_discoverPlugins svc v1 = (Inr lp, v2)
               \<and> ensureValidConfiguration svc lp v2 = (Inr (), v3))))"
proof (intro conjI impI)
  assume "plugins_discover svc (world s) = (Inr deps, w1)"
    "legacy_discoverPlugins svc w1 = (Inr lp, w2)"
    "ensureValidConfiguration svc lp w2 = (Inl e, w3)"
  then show "Server_setup svc s =
      (Inl e,
       s\<lparr>calls := calls s @
             [\<lparr>target = Plugins, operation = Discover, passed = NoArgs, settled = Resolved\<rparr>,
              \<lparr>target = Legacy, operation = DiscoverPlugins, passed = NoArgs, settled = Resolved\<rparr>,
              \<lparr>target = Config, operation = EnsureValidConfiguration,
                 passed = ValidationArgs lp, settled = Failed e\<rparr>],
          logged := logged s @ [''setting up server''],
          world := w3\<rparr>)"
    by (rule setup_validation_fails)
next
  assume t: "calls (snd (Server_setup svc s)) = calls s @ t"
  have pre: "prefix (map label t) setup_sequence"
    using sequential_prefix(1)[OF runsD[OF runs_setup t]] .
  then show "\<forall>c\<in>set t. operation c \<noteq> Start"
    using no_start_in_setup by blast
  show "\<forall>c\<in>set t. operation c = Setup \<longrightarrow>
            (\<exists>deps v1 lp v2 v3.
               plugins_discover svc (world s) = (Inr deps, v1)
               \<and> legacy_discoverPlugins svc v1 = (Inr lp, v2)
               \<and> ensureValidConfiguration svc lp v2 = (Inr (), v3))"
    using setup_call_chain[OF t] by blast
qed

theorem invalid_configuration_aborts_setup_witness:
  "Server_setup (fake_services\<lparr>ensureValidConfiguration := \<lambda>_. failing (Failure ''invalid'')\<rparr>)
       (Server_new 0) =
     (Inl (Failure ''invalid''),
      \<lparr>calls = [\<lparr>target = Plugins, operation = Discover, passed = NoArgs, settled = Resolved\<rparr>,
                \<lparr>target = Legacy, operation = DiscoverPlugins, passed = NoArgs, settled = Resolved\<rparr>,
                \<lparr>target = Config, operation = EnsureValidConfiguration,
                   passed = ValidationArgs ''legacyPlugins'',
                   settled = Failed (Failure ''invalid'')\<rparr>],
       logged = [''setting up server''], world = 3\<rparr>)"
  using invalid_configuration_aborts_setup[where
          svc = "fake_services\<lparr>ensureValidConfiguration := \<lambda>_. failing (Failure ''invalid'')\<rparr>"
          and s = "Server_new 0"
          and deps = "[(''alerting'', []), (''security'', [''alerting''])]" and ?w1.0 = 1
          and lp = "''legacyPlugins''" and ?w2.0 = 2 and e = "Failure ''invalid''" and ?w3.0 = 3
          and t = "calls (snd (Server_setup
             (fake_services\<lparr>ensureValidConfiguration := \<lambda>_. failing (Failure ''invalid'')\<rparr>)
             (Server_new 0)))", THEN conjunct1]
  by (simp add: fake_services_def Server_new_def returning_def failing_def)




section \<open>Starting\<close>

lemma fake_start:
  "Server_start fake_services (Server_new 0) =
     (Inr \<lparr>core_start.capabilities = ''capabilitiesStart'',
           core_start.savedObjects = ''savedObjectsStart'',
           core_start.plugins = \<lparr>contracts = [(''alerting'', ''alertingStart'')]\<rparr>\<rparr>,
      \<lparr>calls = [\<lparr>target = SavedObjects, operation = Start, passed = EmptyObject, settled = Resolved\<rparr>,
                \<lparr>target = Capabilities, operation = Start, passed = NoArgs, settled = Resolved\<rparr>,
                \<lparr>target = Plugins, operation = Start,
                   passed = PluginsStartDeps ''capabilitiesStart'' ''savedObjectsStart'',
                   settled = Resolved\<rparr>,
                \<lparr>target = Legacy, operation = Start,
                   passed = LegacyStartDeps
                     \<lparr>core_start.capabilities = ''capabilitiesStart'',
                      core_start.savedObjects = ''savedObjectsStart'',
                      core_start.plugins = \<lparr>contracts = [(''alerting'', ''alertingStart'')]\<rparr>\<rparr>
                     ''alerting'',
                   settled = Resolved\<rparr>,
                \<lparr>target = Http, operation = Start, passed = NoArgs, settled = Resolved\<rparr>],
       logged = [''starting server''], world = 5\<rparr>)"
  by (simp add: Server_start_def Server_new_def fake_services_def and_then_def invoke_def
        log_debug_def returning_def settle_def resolve_def Let_def)


lemma start_trace:
  assumes t: "calls (snd (Server_start svc s)) = calls s @ t"
  shows "prefix (map label t) start_sequence
         \<and> (\<forall>c\<in>set (butlast t). settled c = Resolved)
         \<and> (\<forall>c\<in>set t. label c = (Http, Start) \<longrightarrow> c = last t \<and> map label t = start_sequence)
         \<and> (\<forall>x. fst (Server_start svc s) = Inr x \<longrightarrow>
               map label t = start_sequence \<and> (\<forall>c\<in>set t. settled c = Resolved))
         \<and> (\<forall>sos w1 cs w2. savedObjects_start svc (world s) = (Inr sos, w1) \<longrightarrow>
               capabilities_start svc w1 = (Inr cs, w2) \<longrightarrow>
               (\<forall>c\<in>set t. label c = (Plugins, Start) \<longrightarrow> passed c = PluginsStartDeps cs sos))"
proof -
  have seq: "sequential start_sequence t (fst (Server_start svc s))"
    using runs_start t by (rule runsD)
  have pre: "prefix (map label t) start_sequence"
    and bl: "\<forall>c\<in>set (butlast t). settled c = Resolved"
    using sequential_prefix[OF seq] by blast+
  have dist: "distinct (map label t)"
    using seq by (rule sequential_distinct) (simp add: start_sequence_def)
  have http: "c = last t \<and> map label t = start_sequence"
    if c: "c \<in> set t" and l: "label c = (Http, Start)" for c
  proof -
    have split: "start_sequence =
        [(SavedObjects, Start), (Capabilities, Start), (Plugins, Start), (Legacy, Start)] @ [(Http, Start)]"
      by (simp add: start_sequence_def)
    have "(Http, Start) \<in> set (map label t)" using c l by force
    with pre have full: "map label t = start_sequence"
      unfolding split by (rule prefix_reaches_last) simp
    then have "last (map label t) = (Http, Start)" by (simp add: start_sequence_def)
    with dist c l have "c = last t" by (simp add: last_call_of_label)
    with full show ?thesis by simp
  qed
  have ok: "map label t = start_sequence \<and> (\<forall>c\<in>set t. settled c = Resolved)"
    if "fst (Server_start svc s) = Inr x" for x
    using seq that by (simp add: sequential_def list_all_iff)
  have plug: "passed c = PluginsStartDeps cs sos"
    if so: "savedObjects_start svc (world s) = (Inr sos, w1)"
      and ca: "capabilities_start svc w1 = (Inr cs, w2)"
      and c: "c \<in> set t" and l: "label c = (Plugins, Start)" for sos w1 cs w2 c
  proof -
    have "\<exists>c' t'. calls (snd (Server_start svc s)) =
              (calls s @ [\<lparr>target = SavedObjects, operation = Start, passed = EmptyObject, settled = Resolved\<rparr>,
                         \<lparr>target = Capabilities, operation = Start, passed = NoArgs, settled = Resolved\<rparr>])
              @ c' # t'
            \<and> target c' = Plugins \<and> operation c' = Start \<and> passed c' = PluginsStartDeps cs sos"
      unfolding Server_start_def
      apply (simp only: and_then_log)
      apply (subst and_then_invoke_resolved[where x = sos and w' = w1])
       apply (simp add: so)
      apply (subst and_then_invoke_resolved[where x = cs and w' = w2])
       apply (simp add: ca)
      apply (rule invoke_first[where L = "[(Legacy, Start), (Http, Start)]"])
      unfolding Let_def
       apply (intro runs_invoke_then runs_resolve)
      apply simp
      done
    then obtain c' t' where c': "calls (snd (Server_start svc s)) =
              (calls s @ [\<lparr>target = SavedObjects, operation = Start, passed = EmptyObject, settled = Resolved\<rparr>,
                         \<lparr>target = Capabilities, operation = Start, passed = NoArgs, settled = Resolved\<rparr>])
              @ c' # t'"
      "label c' = (Plugins, Start)" "passed c' = PluginsStartDeps cs sos"
      by (auto simp: label_def)
    from c'(1) t have "c' \<in> set t" by simp
    with dist c l c'(2) have "c = c'" using same_label_same_call by metis
    with c'(3) show ?thesis by simp
  qed
  from pre bl http ok plug show ?thesis by blast
qed

text \<open>
  Claim C3. When the starts of saved-objects, capabilities, plugins and legacy resolve
  in turn, \<open>Server.start()\<close> has run them in that order, \<open>plugins.start\<close> on the
  contracts that \<open>capabilities.start\<close> and \<open>savedObjects.start\<close> returned, and
  then runs \<open>http.start\<close> last; it resolves with the start contracts when
  \<open>http.start\<close> resolves and rejects with its failure otherwise. In every run the
  calls made are an initial part of that sequence, every call but the last has resolved,
  and a call of \<open>http.start\<close> is the last call of a run in which the four other
  starts were run and resolved.
\<close>

theorem Server_start_order:
  "(calls (snd (Server_start svc s)) = calls s @ t \<longrightarrow>
      prefix (map label t) start_sequence
      \<and> (\<forall>c\<in>set (butlast t). settled c = Resolved)
      \<and> (\<forall>e. fst (Server_start svc s) = Inl e \<longrightarrow> t \<noteq> [] \<and> settled (last t) = Failed e)
      \<and> (\<forall>x. fst (Server_start svc s) = Inr x \<longrightarrow>
            map label t = start_sequence \<and> (\<forall>c\<in>set t. settled c = Resolved))
      \<and> (\<forall>c\<in>set t. label c = (Http, Start) \<longrightarrow>
            c = last t \<and> map label t = start_sequence
            \<and> (\<exists>sos v1 cs v2 ps v3 v4.
                  savedObjects_start svc (world s) = (Inr sos, v1)
                  \<and> capabilities_start svc v1 = (Inr cs, v2)
                  \<and> plugins_start svc cs sos v2 = (Inr ps, v3)
                  \<and> legacy_start svc
                       \<lparr>core_start.capabilities = cs, core_start.savedObjects = sos,
                        core_start.plugins = ps\<rparr>
                       (mapToObject svc (contracts ps)) v3 = (Inr (), v4)))
      \<and> (\<forall>sos v1 cs v2. savedObjects_start svc (world s) = (Inr sos, v1) \<longrightarrow>
            capabilities_start svc v1 = (Inr cs, v2) \<longrightarrow>
            (\<forall>c\<in>set t. label c = (Plugins, Start) \<longrightarrow> passed c = PluginsStartDeps cs sos)))
   \<and> (savedObjects_start svc (world s) = (Inr sos, w1) \<longrightarrow>
      capabilities_start svc w1 = (Inr cs, w2) \<longrightarrow>
      plugins_start svc cs sos w2 = (Inr ps, w3) \<longrightarrow>
      legacy_start svc
        \<lparr>core_start.capabilities = cs, core_start.savedObjects = sos, core_start.plugins = ps\<rparr>
        (mapToObject svc (contracts ps)) w3 = (Inr (), w4) \<longrightarrow>
      http_start svc w4 = (r, w5) \<longrightarrow>
      Server_start svc s =
        (case r of Inl e \<Rightarrow> Inl e
         | Inr _ \<Rightarrow> Inr \<lparr>core_start.capabilities = cs, core_start.savedObjects = sos,
                         core_start.plugins = ps\<rparr>,
         s\<lparr>calls := calls s @
            [\<lparr>target = SavedObjects, operation = Start, passed = EmptyObject, settled = Resolved\<rparr>,
             \<lparr>target = Capabilities, operation = Start, passed = NoArgs, settled = Resolved\<rparr>,
             \<lparr>target = Plugins, operation = Start, passed = PluginsStartDeps cs sos,
                settled = Resolved\<rparr>,
             \<lparr>target = Legacy, operation = Start,
                passed = LegacyStartDeps
                  \<lparr>core_start.capabilities = cs, core_start.savedObjects = sos,
                   core_start.plugins = ps\<rparr>
                  (mapToObject svc (contracts ps)),
                settled = Resolved\<rparr>,
             \<lparr>target = Http, operation = Start, passed = NoArgs, settled = settle r\<rparr>],
           logged := logged s @ [''starting server''],
           world := w5\<rparr>))"
proof (intro conjI impI)
  assume t: "calls (snd (Server_start svc s)) = calls s @ t"
  note tr = start_trace[OF t]
  from tr show "prefix (map label t) start_sequence" by blast
  from tr show "\<forall>c\<in>set (butlast t). settled c = Resolved" by blast
  show "\<forall>e. fst (Server_start svc s) = Inl e \<longrightarrow> t \<noteq> [] \<and> settled (last t) = Failed e"
    using rejected_ends_failed[OF runs_start t] by blast
  from tr show "\<forall>x. fst (Server_start svc s) = Inr x \<longrightarrow>
            map label t = start_sequence \<and> (\<forall>c\<in>set t. settled c = Resolved)" by blast
  show "\<forall>c\<in>set t. label c = (Http, Start) \<longrightarrow>
            c = last t \<and> map label t = start_sequence
            \<and> (\<exists>sos v1 cs v2 ps v3 v4.
                  savedObjects_start svc (world s) = (Inr sos, v1)
                  \<and> capabilities_start svc v1 = (Inr cs, v2)
                  \<and> plugins_start svc cs sos v2 = (Inr ps, v3)
                  \<and> legacy_start svc
                       \<lparr>core_start.capabilities = cs, core_start.savedObjects = sos,
                        core_start.plugins = ps\<rparr>
                       (mapToObject svc (contracts ps)) v3 = (Inr (), v4))"
  proof (intro ballI impI conjI)
    fix c assume c: "c \<in> set t" "label c = (Http, Start)"
    with tr show "c = last t" "map label t = start_sequence" by blast+
    from t c show "\<exists>sos v1 cs v2 ps v3 v4.
                  savedObjects_start svc (world s) = (Inr sos, v1)
                  \<and> capabilities_start svc v1 = (Inr cs, v2)
                  \<and> plugins_start svc cs sos v2 = (Inr ps, v3)
                  \<and> legacy_start svc
                       \<lparr>core_start.capabilities = cs, core_start.savedObjects = sos,
                        core_start.plugins = ps\<rparr>
                       (mapToObject svc (contracts ps)) v3 = (Inr (), v4)"
      by (rule start_http_chain)
  qed
  from tr show "\<forall>sos v1 cs v2. savedObjects_start svc (world s) = (Inr sos, v1) \<longrightarrow>
            capabilities_start svc v1 = (Inr cs, v2) \<longrightarrow>
            (\<forall>c\<in>set t. label c = (Plugins, Start) \<longrightarrow> passed c = PluginsStartDeps cs sos)"
    by blast
next
  assume "savedObjects_start svc (world s) = (Inr sos, w1)"
    "capabilities_start svc w1 = (Inr cs, w2)"
    "plugins_start svc cs sos w2 = (Inr ps, w3)"
    "legacy_start svc
        \<lparr>core_start.capabilities = cs, core_start.savedObjects = sos, core_start.plugins = ps\<rparr>
        (mapToObject svc (contracts ps)) w3 = (Inr (), w4)"
    "http_start svc w4 = (r, w5)"
  then show "Server_start svc s =
        (case r of Inl e \<Rightarrow> Inl e
         | Inr _ \<Rightarrow> Inr \<lparr>core_start.capabilities = cs, core_start.savedObjects = sos,
                         core_start.plugins = ps\<rparr>,
         s\<lparr>calls := calls s @
            [\<lparr>target = SavedObjects, operation = Start, passed = EmptyObject, settled = Resolved\<rparr>,
             \<lparr>target = Capabilities, operation = Start, passed = NoArgs, settled = Resolved\<rparr>,
             \<lparr>target = Plugins, operation = Start, passed = PluginsStartDeps cs sos,
                settled = Resolved\<rparr>,
             \<lparr>target = Legacy, operation = Start,
                passed = LegacyStartDeps
                  \<lparr>core_start.capabilities = cs, core_start.savedObjects = sos,
                   core_start.plugins = ps\<rparr>
                  (mapToObject svc (contracts ps)),
                settled = Resolved\<rparr>,
             \<lparr>target = Http, operation = Start, passed = NoArgs, settled = settle r\<rparr>],
           logged := logged s @ [''starting server''],
           world := w5\<rparr>)"
    by (rule start_run)
qed

theorem Server_start_order_witness:
  "map label (calls (snd (Server_start fake_services (Server_new 0)))) = start_sequence
   \<and> passed (calls (snd (Server_start fake_services (Server_new 0))) ! 2)
        = PluginsStartDeps ''capabilitiesStart'' ''savedObjectsStart''
   \<and> label (last (calls (snd (Server_start fake_services (Server_new 0))))) = (Http, Start)
   \<and> world (snd (Server_start fake_services (Server_new 0))) = 5
   \<and> fst (Server_start fake_services (Server_new 0)) =
       Inr \<lparr>core_start.capabilities = ''capabilitiesStart'',
            core_start.savedObjects = ''savedObjectsStart'',
            core_start.plugins = \<lparr>contracts = [(''alerting'', ''alertingStart'')]\<rparr>\<rparr>"
proof -
  note th = Server_start_order[where svc = fake_services and s = "Server_new 0"
      and sos = "''savedObjectsStart''" and ?w1.0 = 1 and cs = "''capabilitiesStart''"
      and ?w2.0 = 2 and ps = "\<lparr>contracts = [(''alerting'', ''alertingStart'')]\<rparr>"
      and ?w3.0 = 3 and ?w4.0 = 4 and r = "Inr ()" and ?w5.0 = 5
      and t = "calls (snd (Server_start fake_services (Server_new 0)))"]
  from th[THEN conjunct2] have eq: "Server_start fake_services (Server_new 0) =
     (Inr \<lparr>core_start.capabilities = ''capabilitiesStart'',
           core_start.savedObjects = ''savedObjectsStart'',
           core_start.plugins = \<lparr>contracts = [(''alerting'', ''alertingStart'')]\<rparr>\<rparr>,
      \<lparr>calls =
            [\<lparr>target = SavedObjects, operation = Start, passed = EmptyObject, settled = Resolved\<rparr>,
             \<lparr>target = Capabilities, operation = Start, passed = NoArgs, settled = Resolved\<rparr>,
             \<lparr>target = Plugins, operation = Start,
                passed = PluginsStartDeps ''capabilitiesStart'' ''savedObjectsStart'',
                settled = Resolved\<rparr>,
             \<lparr>target = Legacy, operation = Start,
                passed = LegacyStartDeps
                  \<lparr>core_start.capabilities = ''capabilitiesStart'',
                   core_start.savedObjects = ''savedObjectsStart'',
                   core_start.plugins = \<lparr>contracts = [(''alerting'', ''alertingStart'')]\<rparr>\<rparr>
                  ''alerting'',
                settled = Resolved\<rparr>,
             \<lparr>target = Http, operation = Start, passed = NoArgs, settled = Resolved\<rparr>],
         logged = [''starting server''],
         world = 5\<rparr>)"
    by (simp add: fake_services_def Server_new_def returning_def settle_def)
  from th[THEN conjunct1] have "prefix (map label (calls (snd (Server_start fake_services (Server_new 0))))) start_sequence"
    by (simp add: Server_new_def)
  with eq show ?thesis by (simp add: label_def start_sequence_def)
qed

text \<open>
  Claim C9 says that \<open>start()\<close> on a new \<open>Server\<close> fails or is disallowed. It does
  not: with services whose starts resolve, \<open>start()\<close> on a new \<open>Server\<close> resolves.
\<close>

theorem start_on_fresh_server_resolves:
  "fst (Server_start fake_services (Server_new 0)) =
     Inr \<lparr>core_start.capabilities = ''capabilitiesStart'',
          core_start.savedObjects = ''savedObjectsStart'',
          core_start.plugins = \<lparr>contracts = [(''alerting'', ''alertingStart'')]\<rparr>\<rparr>"
  by (simp add: fake_start)


text \<open>
  Claim C9, amended. The \<open>Server\<close> keeps no state of its lifecycle and \<open>start()\<close>
  checks nothing: in any state, that of a new \<open>Server\<close> included, when the five
  starts resolve one after another, \<open>start()\<close> makes exactly these five calls and
  resolves with the start contracts.
\<close>

theorem Server_start_unguarded:
  assumes "savedObjects_start svc (world s) = (Inr sos, w1)"
    and "capabilities_start svc w1 = (Inr cs, w2)"
    and "plugins_start svc cs sos w2 = (Inr ps, w3)"
    and "legacy_start svc
           \<lparr>core_start.capabilities = cs, core_start.savedObjects = sos, core_start.plugins = ps\<rparr>
           (mapToObject svc (contracts ps)) w3 = (Inr (), w4)"
    and "http_start svc w4 = (Inr (), w5)"
  shows "Server_start svc s =
     (Inr \<lparr>core_start.capabilities = cs, core_start.savedObjects = sos, core_start.plugins = ps\<rparr>,
      s\<lparr>calls := calls s @
            [\<lparr>target = SavedObjects, operation = Start, passed = EmptyObject, settled = Resolved\<rparr>,
             \<lparr>target = Capabilities, operation = Start, passed = NoArgs, settled = Resolved\<rparr>,
             \<lparr>target = Plugins, operation = Start, passed = PluginsStartDeps cs sos,
                settled = Resolved\<rparr>,
             \<lparr>target = Legacy, operation = Start,
                passed = LegacyStartDeps
                  \<lparr>core_start.capabilities = cs, core_start.savedObjects = sos,
                   core_start.plugins = ps\<rparr>
                  (mapToObject svc (contracts ps)),
                settled = Resolved\<rparr>,
             \<lparr>target = Http, operation = Start, passed = NoArgs, settled = Resolved\<rparr>],
         logged := logged s @ [''starting server''],
         world := w5\<rparr>)"
  using assms
  by (simp add: Server_start_def and_then_def invoke_def log_debug_def settle_def resolve_def
        Let_def)

theorem Server_start_unguarded_witness:
  "Server_start fake_services (Server_new 0) =
     (Inr \<lparr>core_start.capabilities = ''capabilitiesStart'',
           core_start.savedObjects = ''savedObjectsStart'',
           core_start.plugins = \<lparr>contracts = [(''alerting'', ''alertingStart'')]\<rparr>\<rparr>,
      \<lparr>calls =
            [\<lparr>target = SavedObjects, operation = Start, passed = EmptyObject, settled = Resolved\<rparr>,
             \<lparr>target = Capabilities, operation = Start, passed = NoArgs, settled = Resolved\<rparr>,
             \<lparr>target = Plugins, operation = Start,
                passed = PluginsStartDeps ''capabilitiesStart'' ''savedObjectsStart'',
                settled = Resolved\<rparr>,
             \<lparr>target = Legacy, operation = Start,
                passed = LegacyStartDeps
                  \<lparr>core_start.capabilities = ''capabilitiesStart'',
                   core_start.savedObjects = ''savedObjectsStart'',
                   core_start.plugins = \<lparr>contracts = [(''alerting'', ''alertingStart'')]\<rparr>\<rparr>
                  ''alerting'',
                settled = Resolved\<rparr>,
             \<lparr>target = Http, operation = Start, passed = NoArgs, settled = Resolved\<rparr>],
         logged = [''starting server''],
         world = 5\<rparr>)"
  using Server_start_unguarded[of fake_services "Server_new 0" "''savedObjectsStart''" 1
          "''capabilitiesStart''" 2 "\<lparr>contracts = [(''alerting'', ''alertingStart'')]\<rparr>" 3 4 5]
  by (simp add: fake_services_def Server_new_def returning_def)


section \<open>Stopping\<close>


text \<open>
  Claim C4. When the stops of legacy, plugins, savedObjects, elasticsearch and http
  resolve in turn, each in the world its predecessor left, \<open>Server.stop()\<close> runs
  exactly these five, once each and in that order, and resolves. A run in which no
  call was rejected is such a run: the five operations were run in turn and resolved,
  and the calls made are these five.
\<close>

theorem Server_stop_order:
  "(legacy_stop svc (world s) = (Inr (), w1) \<longrightarrow>
    plugins_stop svc w1 = (Inr (), w2) \<longrightarrow>
    savedObjects_stop svc w2 = (Inr (), w3) \<longrightarrow>
    elasticsearch_stop svc w3 = (Inr (), w4) \<longrightarrow>
    http_stop svc w4 = (Inr (), w5) \<longrightarrow>
    Server_stop svc s =
      (Inr (),
       s\<lparr>calls := calls s @
             [\<lparr>target = Legacy, operation = Stop, passed = NoArgs, settled = Resolved\<rparr>,
              \<lparr>target = Plugins, operation = Stop, passed = NoArgs, settled = Resolved\<rparr>,
              \<lparr>target = SavedObjects, operation = Stop, passed = NoArgs, settled = Resolved\<rparr>,
              \<lparr>target = Elasticsearch, operation = Stop, passed = NoArgs, settled = Resolved\<rparr>,
              \<lparr>target = Http, operation = Stop, passed = NoArgs, settled = Resolved\<rparr>],
          logged := logged s @ [''stopping server''],
          world := w5\<rparr>))
   \<and> (calls (snd (Server_stop svc s)) = calls s @ t \<longrightarrow>
      (\<forall>c\<in>set t. \<forall>e. settled c \<noteq> Failed e) \<longrightarrow>
      fst (Server_stop svc s) = Inr ()
      \<and> t = [\<lparr>target = Legacy, operation = Stop, passed = NoArgs, settled = Resolved\<rparr>,
             \<lparr>target = Plugins, operation = Stop, passed = NoArgs, settled = Resolved\<rparr>,
             \<lparr>target = SavedObjects, operation = Stop, passed = NoArgs, settled = Resolved\<rparr>,
             \<lparr>target = Elasticsearch, operation = Stop, passed = NoArgs, settled = Resolved\<rparr>,
             \<lparr>target = Http, operation = Stop, passed = NoArgs, settled = Resolved\<rparr>]
      \<and> map label t = stop_sequence
      \<and> (\<exists>v1 v2 v3 v4 v5.
            legacy_stop svc (world s) = (Inr (), v1) \<and> plugins_stop svc v1 = (Inr (), v2)
            \<and> savedObjects_stop svc v2 = (Inr (), v3) \<and> elasticsearch_stop svc v3 = (Inr (), v4)
            \<and> http_stop svc v4 = (Inr (), v5) \<and> world (snd (Server_stop svc s)) = v5))"
proof (intro conjI impI)
  assume "legacy_stop svc (world s) = (Inr (), w1)" "plugins_stop svc w1 = (Inr (), w2)"
    "savedObjects_stop svc w2 = (Inr (), w3)" "elasticsearch_stop svc w3 = (Inr (), w4)"
    "http_stop svc w4 = (Inr (), w5)"
  then show "Server_stop svc s =
      (Inr (),
       s\<lparr>calls := calls s @
             [\<lparr>target = Legacy, operation = Stop, passed = NoArgs, settled = Resolved\<rparr>,
              \<lparr>target = Plugins, operation = Stop, passed = NoArgs, settled = Resolved\<rparr>,
              \<lparr>target = SavedObjects, operation = Stop, passed = NoArgs, settled = Resolved\<rparr>,
              \<lparr>target = Elasticsearch, operation = Stop, passed = NoArgs, settled = Resolved\<rparr>,
              \<lparr>target = Http, operation = Stop, passed = NoArgs, settled = Resolved\<rparr>],
          logged := logged s @ [''stopping server''],
          world := w5\<rparr>)"
    by (rule stop_run)
next
  assume t: "calls (snd (Server_stop svc s)) = calls s @ t"
    and nofail: "\<forall>c\<in>set t. \<forall>e. settled c \<noteq> Failed e"
  have ok: "fst (Server_stop svc s) = Inr ()"
  proof (cases "fst (Server_stop svc s)")
    case (Inl e)
    with rejected_ends_failed[OF runs_stop t] have "t \<noteq> []" "settled (last t) = Failed e"
      by simp_all
    with nofail show ?thesis using last_in_set by blast
  next
    case (Inr u)
    then show ?thesis by simp
  qed
  from stop_resolved_chain[OF ok] obtain v1 v2 v3 v4 v5 where
    chain: "legacy_stop svc (world s) = (Inr (), v1)" "plugins_stop svc v1 = (Inr (), v2)"
      "savedObjects_stop svc v2 = (Inr (), v3)" "elasticsearch_stop svc v3 = (Inr (), v4)"
      "http_stop svc v4 = (Inr (), v5)" "world (snd (Server_stop svc s)) = v5"
    by blast
  have eq: "t = [\<lparr>target = Legacy, operation = Stop, passed = NoArgs, settled = Resolved\<rparr>,
             \<lparr>target = Plugins, operation = Stop, passed = NoArgs, settled = Resolved\<rparr>,
             \<lparr>target = SavedObjects, operation = Stop, passed = NoArgs, settled = Resolved\<rparr>,
             \<lparr>target = Elasticsearch, operation = Stop, passed = NoArgs, settled = Resolved\<rparr>,
             \<lparr>target = Http, operation = Stop, passed = NoArgs, settled = Resolved\<rparr>]"
    using t stop_run[OF chain(1-5)] by simp
  show "fst (Server_stop svc s) = Inr ()" by (rule ok)
  show "t = [\<lparr>target = Legacy, operation = Stop, passed = NoArgs, settled = Resolved\<rparr>,
             \<lparr>target = Plugins, operation = Stop, passed = NoArgs, settled = Resolved\<rparr>,
             \<lparr>target = SavedObjects, operation = Stop, passed = NoArgs, settled = Resolved\<rparr>,
             \<lparr>target = Elasticsearch, operation = Stop, passed = NoArgs, settled = Resolved\<rparr>,
             \<lparr>target = Http, operation = Stop, passed = NoArgs, settled = Resolved\<rparr>]"
    by (rule eq)
  show "map label t = stop_sequence"
    by (simp add: eq label_def stop_sequence_def)
  from chain show "\<exists>v1 v2 v3 v4 v5.
            legacy_stop svc (world s) = (Inr (), v1) \<and> plugins_stop svc v1 = (Inr (), v2)
            \<and> savedObjects_stop svc v2 = (Inr (), v3) \<and> elasticsearch_stop svc v3 = (Inr (), v4)
            \<and> http_stop svc v4 = (Inr (), v5) \<and> world (snd (Server_stop svc s)) = v5"
    by blast
qed

theorem Server_stop_order_witness:
  "Server_stop fake_services (Server_new 0) =
     (Inr (),
      \<lparr>calls = [\<lparr>target = Legacy, operation = Stop, passed = NoArgs, settled = Resolved\<rparr>,
                \<lparr>target = Plugins, operation = Stop, passed = NoArgs, settled = Resolved\<rparr>,
                \<lparr>target = SavedObjects, operation = Stop, passed = NoArgs, settled = Resolved\<rparr>,
                \<lparr>target = Elasticsearch, operation = Stop, passed = NoArgs, settled = Resolved\<rparr>,
                \<lparr>target = Http, operation = Stop, passed = NoArgs, settled = Resolved\<rparr>],
       logged = [''stopping server''], world = 5\<rparr>)
   \<and> map label (calls (snd (Server_stop fake_services (Server_new 0)))) = stop_sequence"
proof -
  note th = Server_stop_order[where svc = fake_services and s = "Server_new 0"
      and ?w1.0 = 1 and ?w2.0 = 2 and ?w3.0 = 3 and ?w4.0 = 4 and ?w5.0 = 5
      and t = "calls (snd (Server_stop fake_services (Server_new 0)))"]
  from th[THEN conjunct1] have eq: "Server_stop fake_services (Server_new 0) =
     (Inr (),
      \<lparr>calls = [\<lparr>target = Legacy, operation = Stop, passed = NoArgs, settled = Resolved\<rparr>,
                \<lparr>target = Plugins, operation = Stop, passed = NoArgs, settled = Resolved\<rparr>,
                \<lparr>target = SavedObjects, operation = Stop, passed = NoArgs, settled = Resolved\<rparr>,
                \<lparr>target = Elasticsearch, operation = Stop, passed = NoArgs, settled = Resolved\<rparr>,
                \<lparr>target = Http, operation = Stop, passed = NoArgs, settled = Resolved\<rparr>],
       logged = [''stopping server''], world = 5\<rparr>)"
    by (simp add: fake_services_def Server_new_def returning_def)
  from th[THEN conjunct2] have "map label (calls (snd (Server_stop fake_services (Server_new 0)))) = stop_sequence"
    by (simp add: eq) (simp add: Server_new_def)
  with eq show ?thesis by simp
qed




section \<open>The default route and the core context\<close>

text \<open>
  Claim C8. \<open>registerDefaultRoute\<close> creates the router of \<open>/core\<close> and registers
  on it, for \<open>get\<close> of the path \<open>/\<close> and with \<open>validate: false\<close>, a handler that
  returns, whatever the context and the request, the response that \<open>res.ok\<close> builds
  from the body \<open>{ version: '0.0.1' }\<close>.
\<close>

theorem default_route:
  assumes "createRouter svc httpSetup ''/core'' (world s) = (Inr router, w1)"
    and "router_get svc router \<lparr>path = ''/'', validate = False\<rparr> DefaultRouteHandler w1 = (r, w2)"
  shows "registerDefaultRoute svc httpSetup s =
           (r, s\<lparr>calls := calls s @
                  [\<lparr>target = Http, operation = CreateRouter,
                     passed = RouterPath httpSetup ''/core'', settled = Resolved\<rparr>,
                   \<lparr>target = Router, operation = Get,
                     passed = RouteArgs router \<lparr>path = ''/'', validate = False\<rparr> DefaultRouteHandler,
                     settled = settle r\<rparr>],
                world := w2\<rparr>)
         \<and> run_route_handler DefaultRouteHandler ctx req res =
             ok res \<lparr>body = [(''version'', ''0.0.1'')]\<rparr>"
  using assms
  by (simp add: registerDefaultRoute_def and_then_def invoke_def settle_def defaultRouteHandler_def)

theorem default_route_witness:
  "run_route_handler DefaultRouteHandler () ''any payload'' \<lparr>ok = body\<rparr> = [(''version'', ''0.0.1'')]
   \<and> registerDefaultRoute fake_services ''httpSetup'' (Server_new 0) =
       (Inr (),
        \<lparr>calls = [\<lparr>target = Http, operation = CreateRouter,
                     passed = RouterPath ''httpSetup'' ''/core'', settled = Resolved\<rparr>,
                  \<lparr>target = Router, operation = Get,
                     passed = RouteArgs ''router'' \<lparr>path = ''/'', validate = False\<rparr> DefaultRouteHandler,
                     settled = Resolved\<rparr>],
         logged = [], world = 2\<rparr>)"
  using default_route[of fake_services "''httpSetup''" "Server_new 0" "''router''" 1 "Inr ()" 2
          "()" "''any payload''" "\<lparr>ok = body\<rparr>"]
  by (simp add: fake_services_def Server_new_def returning_def settle_def)


text \<open>
  Claim C6. \<open>registerCoreContext\<close> registers under the name \<open>core\<close> a provider
  that, when each of the two client streams emits a first client, resolves for a
  request to the context of exactly \<open>savedObjects.client\<close>,
  \<open>elasticsearch.adminClient\<close>, \<open>elasticsearch.dataClient\<close> and
  \<open>uiSettings.client\<close>: the first admin and data clients scoped to the request, the
  saved-objects client scoped to the request, and the ui-settings client bound to
  that saved-objects client. The contexts of two different requests differ in each of
  the four clients.
\<close>

theorem core_context_contents:
  assumes "emitted (adminClient_obs (core_setup.elasticsearch coreSetup)) = admin # admins"
    and "emitted (dataClient_obs (core_setup.elasticsearch coreSetup)) = data # datas"
  shows "run_context_provider (CoreContextProvider coreSetup) ctx req =
           Inr \<lparr>core_context.savedObjects =
                  \<lparr>savedObjects_context.client =
                     getScopedClient (core_setup.savedObjects coreSetup) req\<rparr>,
                core_context.elasticsearch =
                  \<lparr>adminClient = asScoped admin req, dataClient = asScoped data req\<rparr>,
                core_context.uiSettings =
                  \<lparr>uiSettings_context.client =
                     asScopedToClient (core_setup.uiSettings coreSetup)
                       (getScopedClient (core_setup.savedObjects coreSetup) req)\<rparr>\<rparr>
         \<and> (\<forall>req' c c'. req' \<noteq> req \<longrightarrow>
               run_context_provider (CoreContextProvider coreSetup) ctx req = Inr c \<longrightarrow>
               run_context_provider (CoreContextProvider coreSetup) ctx req' = Inr c' \<longrightarrow>
               savedObjects_context.client (core_context.savedObjects c)
                 \<noteq> savedObjects_context.client (core_context.savedObjects c')
               \<and> adminClient (core_context.elasticsearch c) \<noteq> adminClient (core_context.elasticsearch c')
               \<and> dataClient (core_context.elasticsearch c) \<noteq> dataClient (core_context.elasticsearch c')
               \<and> uiSettings_context.client (core_context.uiSettings c)
                 \<noteq> uiSettings_context.client (core_context.uiSettings c'))
         \<and> (\<exists>c. calls (snd (registerCoreContext svc coreSetup s)) = calls s @ [c]
                \<and> label c = (Http, RegisterRouteHandlerContext)
                \<and> passed c = ContextProviderArgs (core_setup.http coreSetup) coreId ''core''
                               (CoreContextProvider coreSetup))"
proof -
  have run: "run_context_provider (CoreContextProvider coreSetup) ctx r =
           Inr \<lparr>core_context.savedObjects =
                  \<lparr>savedObjects_context.client =
                     getScopedClient (core_setup.savedObjects coreSetup) r\<rparr>,
                core_context.elasticsearch =
                  \<lparr>adminClient = asScoped admin r, dataClient = asScoped data r\<rparr>,
                core_context.uiSettings =
                  \<lparr>uiSettings_context.client =
                     asScopedToClient (core_setup.uiSettings coreSetup)
                       (getScopedClient (core_setup.savedObjects coreSetup) r)\<rparr>\<rparr>" for r
    using assms by (simp add: coreContextProvider_def take1_toPromise_def Let_def)
  have differ: "savedObjects_context.client (core_context.savedObjects c)
                 \<noteq> savedObjects_context.client (core_context.savedObjects c')
               \<and> adminClient (core_context.elasticsearch c) \<noteq> adminClient (core_context.elasticsearch c')
               \<and> dataClient (core_context.elasticsearch c) \<noteq> dataClient (core_context.elasticsearch c')
               \<and> uiSettings_context.client (core_context.uiSettings c)
                 \<noteq> uiSettings_context.client (core_context.uiSettings c')"
    if "req' \<noteq> req"
      and "run_context_provider (CoreContextProvider coreSetup) ctx req = Inr c"
      and "run_context_provider (CoreContextProvider coreSetup) ctx req' = Inr c'" for req' c c'
    using that unfolding run
    by (auto simp: getScopedClient_def asScoped_def asScopedToClient_def)
  have reg: "\<exists>c. calls (snd (registerCoreContext svc coreSetup s)) = calls s @ [c]
                \<and> label c = (Http, RegisterRouteHandlerContext)
                \<and> passed c = ContextProviderArgs (core_setup.http coreSetup) coreId ''core''
                               (CoreContextProvider coreSetup)"
    by (simp add: registerCoreContext_def invoke_def label_def split: prod.splits)
  from run[of req] differ reg show ?thesis by blast
qed

theorem core_context_contents_witness:
  "run_context_provider (CoreContextProvider fake_core_setup) () (1::nat) =
     Inr \<lparr>core_context.savedObjects =
            \<lparr>savedObjects_context.client = SavedObjectsClient ''savedObjectsSetup'' 1\<rparr>,
          core_context.elasticsearch =
            \<lparr>adminClient = ScopedClusterClient ''admin'' 1,
             dataClient = ScopedClusterClient ''data'' 1\<rparr>,
          core_context.uiSettings =
            \<lparr>uiSettings_context.client =
               UiSettingsClient ''uiSettingsSetup'' (SavedObjectsClient ''savedObjectsSetup'' 1)\<rparr>\<rparr>"
proof -
  have admin: "emitted (adminClient_obs (core_setup.elasticsearch fake_core_setup)) = ''admin'' # [''admin2'']"
    by (simp add: fake_core_setup_def fake_elasticsearch_def)
  have data: "emitted (dataClient_obs (core_setup.elasticsearch fake_core_setup)) = ''data'' # []"
    by (simp add: fake_core_setup_def fake_elasticsearch_def)
  note core_context_contents[OF admin data, where svc = fake_services and s = "Server_new 0"
      and ctx = "()" and req = "1::nat"]
  then have "run_context_provider (CoreContextProvider fake_core_setup) () (1::nat) =
           Inr \<lparr>core_context.savedObjects =
                  \<lparr>savedObjects_context.client =
                     getScopedClient (core_setup.savedObjects fake_core_setup) 1\<rparr>,
                core_context.elasticsearch =
                  \<lparr>adminClient = asScoped ''admin'' 1, dataClient = asScoped ''data'' 1\<rparr>,
                core_context.uiSettings =
                  \<lparr>uiSettings_context.client =
                     asScopedToClient (core_setup.uiSettings fake_core_setup)
                       (getScopedClient (core_setup.savedObjects fake_core_setup) 1)\<rparr>\<rparr>"
    by (rule conjunct1)
  then show ?thesis
    by (simp add: fake_core_setup_def getScopedClient_def asScoped_def asScopedToClient_def)
qed


section \<open>The expression functions\<close>

lemma spread_distinct:
  "distinct (map fst (obj @ src)) \<Longrightarrow> spread obj src = obj @ src"
  unfolding spread_def by (rule foldl_Map_set_distinct)

lemma spread_own_type:
  "spread [(''type'', t)] [(''type'', v)] = [(''type'', v)]"
  by (simp add: spread_def)


text \<open>
  Claim C10. For every value of the declared argument type and every context, each of
  \<open>legendConfig.fn\<close>, \<open>xConfig.fn\<close> and \<open>layerConfig.fn\<close> returns the
  properties of its argument, unchanged and in their order, after one property
  \<open>type\<close> holding the name of the function's type; the result does not depend on
  the context. (The declared argument types have no field \<open>type\<close>; an own property
  of that name would take the place of the tag, as \<open>spread_own_type\<close> shows.)
\<close>

theorem expression_functions_add_type:
  "legendConfig_fn ctx (LegendConfig_object legend) =
     (''type'', VString ''lens_xy_legendConfig'') # LegendConfig_object legend
   \<and> xConfig_fn ctx (XConfig_object x) =
     (''type'', VString ''lens_xy_xConfig'') # XConfig_object x
   \<and> layerConfig_fn ctx (LayerArgs_object layer) =
     (''type'', VString ''lens_xy_layer'') # LayerArgs_object layer
   \<and> legendConfig_fn ctx args = legendConfig_fn ctx' args
   \<and> xConfig_fn ctx args = xConfig_fn ctx' args
   \<and> layerConfig_fn ctx args = layerConfig_fn ctx' args"
proof -
  have legend: "distinct (map fst ([(''type'', VString ''lens_xy_legendConfig'')] @ LegendConfig_object legend))"
    by (simp add: LegendConfig_object_def)
  have x: "distinct (map fst ([(''type'', VString ''lens_xy_xConfig'')] @ XConfig_object x))"
    by (simp add: XConfig_object_def optional_def split: option.splits)
  have layer: "distinct (map fst ([(''type'', VString ''lens_xy_layer'')] @ LayerArgs_object layer))"
    by (simp add: LayerArgs_object_def optional_def split: option.splits)
  show ?thesis
    using spread_distinct[OF legend] spread_distinct[OF x] spread_distinct[OF layer]
    by (simp add: legendConfig_fn_def xConfig_fn_def layerConfig_fn_def)
qed


end
